theory Spec2Isabelle
  imports Complex_Main
begin

section \<open>Strings\<close>

text \<open>
  Python's \<^verbatim>\<open>str.lower()\<close> on the ASCII letters (addresses and hashes are hex strings),
  the slice \<^verbatim>\<open>s[-n:]\<close> for a positive \<open>n\<close> (the whole string when it is shorter), and
  \<^verbatim>\<open>str.startswith\<close>.
\<close>

definition lower_char :: "char \<Rightarrow> char" where
  "lower_char c =
     (case map_of (zip ''ABCDEFGHIJKLMNOPQRSTUVWXYZ'' ''abcdefghijklmnopqrstuvwxyz'') c of
        None \<Rightarrow> c
      | Some d \<Rightarrow> d)"

definition lower :: "string \<Rightarrow> string" where
  "lower s = map lower_char s"

definition last_n :: "nat \<Rightarrow> 'a list \<Rightarrow> 'a list" where
  "last_n n s = drop (length s - n) s"

definition startswith :: "string \<Rightarrow> string \<Rightarrow> bool" where
  "startswith s p = (take (length p) s = p)"

section \<open>Event watcher: \<^verbatim>\<open>TokenMonitor\<close> of auto\_swap.py\<close>

text \<open>
  A transfer log as the watcher reads it. \<open>transactionHash\<close> is the string the code keys
  on (\<^verbatim>\<open>log['transactionHash'].hex()\<close> when polling, the JSON field of the message when
  subscribed), \<open>topics\<close> are the hex strings of the topics, and \<open>blockNumber\<close> is the
  integer (\<^verbatim>\<open>int(..., 16)\<close> of the JSON field when subscribed).
\<close>

record transfer_log =
  address :: string
  transactionHash :: string
  topics :: "string list"
  blockNumber :: int

text \<open>
  The configuration the watcher reads. \<^verbatim>\<open>Web3.to_checksum_address\<close> belongs to the web3
  library and is taken as a parameter; the addresses of logs are well-formed, so it does
  not raise.
\<close>

record monitor_config =
  DUPLICATE_CHECK_BLOCKS :: int
  monitor_interval :: int
  wallet_address :: string
  to_checksum_address :: "string \<Rightarrow> string"

text \<open>The fields \<^verbatim>\<open>TokenMonitor.__init__\<close> sets up.\<close>

record token_monitor =
  known_tokens :: "string set"
  processed_events :: "(string \<times> string) set"
  token_last_block :: "string \<rightharpoonup> int"
  last_block_scanned :: int

definition new_monitor :: token_monitor where
  "new_monitor =
     \<lparr> known_tokens = {}, processed_events = {}, token_last_block = Map.empty,
       last_block_scanned = 0 \<rparr>"

text \<open>
  The cooldown test both loops make: the token is in \<^verbatim>\<open>token_last_block\<close> and
  \<^verbatim>\<open>block_number - last_block < DUPLICATE_CHECK_BLOCKS\<close>.
\<close>

definition cooldown_active :: "monitor_config \<Rightarrow> token_monitor \<Rightarrow> string \<Rightarrow> int \<Rightarrow> bool" where
  "cooldown_active cfg s token_address block_number =
     (case token_last_block s token_address of
        None \<Rightarrow> False
      | Some last_block \<Rightarrow> block_number - last_block < DUPLICATE_CHECK_BLOCKS cfg)"

text \<open>The three updates both loops make for a token that passed the checks.\<close>

definition record_detection :: "token_monitor \<Rightarrow> string \<Rightarrow> string \<Rightarrow> int \<Rightarrow> token_monitor" where
  "record_detection s token_address tx_hash block_number =
     s\<lparr> known_tokens := insert token_address (known_tokens s),
        token_last_block := (token_last_block s)(token_address \<mapsto> block_number),
        processed_events := insert (token_address, tx_hash) (processed_events s) \<rparr>"

text \<open>
  The body of the \<^verbatim>\<open>for log in logs\<close> loop of \<^verbatim>\<open>scan_recent_blocks\<close>: the new state and
  the address appended to \<^verbatim>\<open>new_tokens\<close>, if any.
\<close>

definition scan_log :: "monitor_config \<Rightarrow> token_monitor \<Rightarrow> transfer_log \<Rightarrow> token_monitor \<times> string option" where
  "scan_log cfg s lg =
     (let tx_hash = transactionHash lg;
          my_address = lower (to_checksum_address cfg (wallet_address cfg))
      in if (lower (address lg), tx_hash) \<in> processed_events s then (s, None)
         else if 3 \<le> length (topics lg) then
           (let to_address = ''0x'' @ lower (last_n 40 (topics lg ! 2))
            in if to_address = my_address then
                 (let token_address = lower (address lg);
                      block_number = blockNumber lg
                  in if cooldown_active cfg s token_address block_number then (s, None)
                     else (record_detection s token_address tx_hash block_number,
                           Some (to_checksum_address cfg token_address)))
               else (s, None))
         else (s, None))"

text \<open>
  The loop itself. Each appended address is kept with the log that caused it, so that an
  emission can be attributed to its \<open>(tokenAddress, txHash)\<close> pair.
\<close>

fun scan_logs :: "monitor_config \<Rightarrow> token_monitor \<Rightarrow> transfer_log list \<Rightarrow> token_monitor \<times> (transfer_log \<times> string) list" where
  "scan_logs cfg s [] = (s, [])"
| "scan_logs cfg s (lg # logs) =
     (case scan_log cfg s lg of
        (s1, None) \<Rightarrow> scan_logs cfg s1 logs
      | (s1, Some token) \<Rightarrow>
          (case scan_logs cfg s1 logs of (s2, found) \<Rightarrow> (s2, (lg, token) # found)))"

text \<open>
  The chain gateway of one polling cycle: \<^verbatim>\<open>w3.eth.block_number\<close> and
  \<^verbatim>\<open>w3.eth.get_logs\<close> for a block range; \<open>None\<close> is a call that raises.
\<close>

record gateway =
  eth_block_number :: "int option"
  eth_get_logs :: "int \<Rightarrow> int \<Rightarrow> transfer_log list option"

text \<open>
  How far a scan got: the block height could not be read, \<^verbatim>\<open>get_logs\<close> raised for the
  range it was asked, or the range was scanned.
\<close>

datatype scan_outcome = BlockNumberFailed | GetLogsFailed int int | Scanned int int

text \<open>
  \<^verbatim>\<open>scan_recent_blocks\<close>: the new state, the detections (\<^verbatim>\<open>new_tokens\<close> is their second
  components) and how far the scan got. An exception leaves the \<^verbatim>\<open>try\<close> block before
  \<^verbatim>\<open>last_block_scanned\<close> is assigned.
\<close>

definition scan_recent_blocks :: "monitor_config \<Rightarrow> gateway \<Rightarrow> int \<Rightarrow> token_monitor \<Rightarrow> token_monitor \<times> (transfer_log \<times> string) list \<times> scan_outcome" where
  "scan_recent_blocks cfg gw num_blocks s =
     (case eth_block_number gw of
        None \<Rightarrow> (s, [], BlockNumberFailed)
      | Some current_block \<Rightarrow>
          (let start_block = max (current_block - num_blocks) (last_block_scanned s + 1)
           in case eth_get_logs gw start_block current_block of
                None \<Rightarrow> (s, [], GetLogsFailed start_block current_block)
              | Some logs \<Rightarrow>
                  (case scan_logs cfg s logs of
                     (s1, found) \<Rightarrow>
                       (s1\<lparr> last_block_scanned := current_block \<rparr>, found,
                        Scanned start_block current_block))))"

text \<open>
  The handler (\<^verbatim>\<open>callback\<close>) is called while the watcher waits for it; it may read the
  watcher's state and returns or raises. Each call is recorded with the log that caused
  it, the address passed, the watcher's state at the moment of the call, and the outcome.
\<close>

datatype handler_result = Returned | Raised

type_synonym handler = "token_monitor \<Rightarrow> string \<Rightarrow> handler_result"

record emission =
  em_log :: transfer_log
  em_token :: string
  em_seen :: token_monitor
  em_result :: handler_result

definition invoke :: "handler \<Rightarrow> token_monitor \<Rightarrow> transfer_log \<Rightarrow> string \<Rightarrow> emission" where
  "invoke callback s lg token =
     \<lparr> em_log = lg, em_token = token, em_seen = s, em_result = callback s token \<rparr>"

text \<open>
  One turn of the \<^verbatim>\<open>while True\<close> loop of \<^verbatim>\<open>monitor_loop_polling\<close>: the scan, then the
  handler on every new token; a handler that raises is logged and the loop goes on.
\<close>

definition polling_cycle :: "monitor_config \<Rightarrow> handler \<Rightarrow> gateway \<Rightarrow> token_monitor \<Rightarrow> token_monitor \<times> emission list" where
  "polling_cycle cfg callback gw s =
     (case scan_recent_blocks cfg gw (monitor_interval cfg) s of
        (s1, new_tokens, _) \<Rightarrow> (s1, map (\<lambda>(lg, token). invoke callback s1 lg token) new_tokens))"

text \<open>
  The handling of one log notification in \<^verbatim>\<open>monitor_loop_websocket\<close>: the state is
  updated, then the handler is called inside its own \<^verbatim>\<open>try\<close>.
\<close>

definition websocket_log :: "monitor_config \<Rightarrow> handler \<Rightarrow> token_monitor \<Rightarrow> transfer_log \<Rightarrow> token_monitor \<times> emission list" where
  "websocket_log cfg callback s log_data =
     (let my_address = to_checksum_address cfg (wallet_address cfg)
      in if 3 \<le> length (topics log_data) then
           (let to_address = topics log_data ! 2;
                to_address_str = ''0x'' @ lower (last_n 40 to_address)
            in if lower to_address_str = lower my_address then
                 (let token_address = lower (address log_data);
                      tx_hash = transactionHash log_data;
                      block_number = blockNumber log_data
                  in if (token_address, tx_hash) \<in> processed_events s then (s, [])
                     else if cooldown_active cfg s token_address block_number then (s, [])
                     else (let s1 = record_detection s token_address tx_hash block_number
                           in (s1, [invoke callback s1 log_data
                                      (to_checksum_address cfg token_address)])))
               else (s, []))
         else (s, []))"

text \<open>
  A run of the watcher: polling cycles and log notifications in any order (the
  subscription loop falls back to polling on the same object).
\<close>

datatype watcher_input = Poll gateway | Notify transfer_log

fun watch :: "monitor_config \<Rightarrow> handler \<Rightarrow> token_monitor \<Rightarrow> watcher_input list \<Rightarrow> token_monitor \<times> emission list" where
  "watch cfg callback s [] = (s, [])"
| "watch cfg callback s (Poll gw # rest) =
     (case polling_cycle cfg callback gw s of
        (s1, es) \<Rightarrow> (case watch cfg callback s1 rest of (s2, es2) \<Rightarrow> (s2, es @ es2)))"
| "watch cfg callback s (Notify lg # rest) =
     (case websocket_log cfg callback s lg of
        (s1, es) \<Rightarrow> (case watch cfg callback s1 rest of (s2, es2) \<Rightarrow> (s2, es @ es2)))"

text \<open>The deduplication key of a log, as both loops compute it.\<close>

definition event_key :: "transfer_log \<Rightarrow> string \<times> string" where
  "event_key lg = (lower (address lg), transactionHash lg)"

text \<open>The recipient test of the polling loop, for stating properties of matched logs.\<close>

definition to_wallet :: "monitor_config \<Rightarrow> transfer_log \<Rightarrow> bool" where
  "to_wallet cfg lg =
     (3 \<le> length (topics lg) \<and>
      ''0x'' @ lower (last_n 40 (topics lg ! 2)) =
        lower (to_checksum_address cfg (wallet_address cfg)))"

text \<open>The keys of the logs that caused the emissions of a run, in order.\<close>

definition emitted_keys :: "emission list \<Rightarrow> (string \<times> string) list" where
  "emitted_keys es = map (\<lambda>e. event_key (em_log e)) es"

text \<open>
  What the watcher has recorded of a log: its pair is in \<^verbatim>\<open>processed_events\<close> and its
  token is in \<^verbatim>\<open>known_tokens\<close> and has an entry in \<^verbatim>\<open>token_last_block\<close>.
\<close>

definition recorded :: "token_monitor \<Rightarrow> transfer_log \<Rightarrow> bool" where
  "recorded s lg =
     (event_key lg \<in> processed_events s \<and> lower (address lg) \<in> known_tokens s \<and>
      lower (address lg) \<in> dom (token_last_block s))"

text \<open>The three collections only grow.\<close>

definition grows :: "token_monitor \<Rightarrow> token_monitor \<Rightarrow> bool" where
  "grows s s1 =
     (processed_events s \<subseteq> processed_events s1 \<and> known_tokens s \<subseteq> known_tokens s1 \<and>
      dom (token_last_block s) \<subseteq> dom (token_last_block s1))"

text \<open>
  Successive polling cycles with the configured window: the ranges that were scanned, in
  order, and the state after the last cycle.
\<close>

fun polling_ranges :: "monitor_config \<Rightarrow> token_monitor \<Rightarrow> gateway list \<Rightarrow> (int \<times> int) list" where
  "polling_ranges cfg s [] = []"
| "polling_ranges cfg s (gw # gws) =
     (case scan_recent_blocks cfg gw (monitor_interval cfg) s of
        (s1, _, Scanned a b) \<Rightarrow> (a, b) # polling_ranges cfg s1 gws
      | (s1, _, _) \<Rightarrow> polling_ranges cfg s1 gws)"

fun polling_state :: "monitor_config \<Rightarrow> token_monitor \<Rightarrow> gateway list \<Rightarrow> token_monitor" where
  "polling_state cfg s [] = s"
| "polling_state cfg s (gw # gws) =
     polling_state cfg (fst (scan_recent_blocks cfg gw (monitor_interval cfg) s)) gws"

text \<open>
  No gateway reports a height below \<^verbatim>\<open>last_block_scanned\<close> as it stands when its cycle
  starts (a cycle that fails leaves \<^verbatim>\<open>last_block_scanned\<close>, and so the bound, as it was).
\<close>

fun heights_not_below :: "monitor_config \<Rightarrow> token_monitor \<Rightarrow> gateway list \<Rightarrow> bool" where
  "heights_not_below cfg s [] = True"
| "heights_not_below cfg s (gw # gws) =
     ((case eth_block_number gw of None \<Rightarrow> True | Some c \<Rightarrow> last_block_scanned s \<le> c) \<and>
      heights_not_below cfg (fst (scan_recent_blocks cfg gw (monitor_interval cfg) s)) gws)"

section \<open>Example inputs of the event watcher\<close>

text \<open>
  A wallet, a token and transfer logs of that token to the wallet, with the cooldown of
  config.py (\<^verbatim>\<open>DUPLICATE_CHECK_BLOCKS = 3\<close>, \<^verbatim>\<open>MONITOR_INTERVAL = 10\<close>).
\<close>

definition example_config :: monitor_config where
  "example_config =
     \<lparr> DUPLICATE_CHECK_BLOCKS = 3, monitor_interval = 10,
       wallet_address = ''0xBBbb000000000000000000000000000000000001'',
       to_checksum_address = (\<lambda>a. a) \<rparr>"

definition example_log :: "string \<Rightarrow> int \<Rightarrow> transfer_log" where
  "example_log tx_hash block =
     \<lparr> address = ''0xAAaa000000000000000000000000000000000002'',
       transactionHash = tx_hash,
       topics = [''0xddf252ad'',
                 ''0x000000000000000000000000cccc000000000000000000000000000000000003'',
                 ''0x000000000000000000000000bbbb000000000000000000000000000000000001''],
       blockNumber = block \<rparr>"

definition raising_handler :: handler where
  "raising_handler s token = Raised"

definition example_gateway :: "int \<Rightarrow> transfer_log list \<Rightarrow> gateway" where
  "example_gateway height logs =
     \<lparr> eth_block_number = Some height, eth_get_logs = (\<lambda>from_block to_block. Some logs) \<rparr>"

text \<open>A gateway that reports a height and then fails to deliver the logs.\<close>

definition failing_gateway :: "int \<Rightarrow> gateway" where
  "failing_gateway height =
     \<lparr> eth_block_number = Some height, eth_get_logs = (\<lambda>from_block to_block. None) \<rparr>"

text \<open>The watcher after it has seen the example token for the first time, at block 100.\<close>

definition seen_at_100 :: token_monitor where
  "seen_at_100 = fst (scan_log example_config new_monitor (example_log ''0x01'' 100))"


section \<open>Liquidity gate: \<^verbatim>\<open>LiquidityChecker\<close> of auto\_swap.py and sniper\_sell.py\<close>

text \<open>
  The dictionary \<^verbatim>\<open>check_liquidity_dexscreener\<close> returns. The keys \<^verbatim>\<open>best_pair\<close>,
  \<^verbatim>\<open>dex\<close> and \<^verbatim>\<open>price_usd\<close> are present only after a successful lookup. Amounts in USD
  are Python floats; they are modelled as real numbers, so rounding is left out.
\<close>

record pair_info =
  best_pair :: "string option"
  dex :: "string option"
  price_usd :: real

record snapshot =
  has_liquidity :: bool
  liquidity_usd :: real
  info :: "pair_info option"

definition zero_snapshot :: snapshot where
  "zero_snapshot = \<lparr> has_liquidity = False, liquidity_usd = 0, info = None \<rparr>"

text \<open>
  A number read from the reply with a default of 0: the key is absent, or holds a value
  \<^verbatim>\<open>float\<close> accepts, or holds one on which the lookup or \<^verbatim>\<open>float\<close> raises.
\<close>

datatype jnum = Absent | Num real | Malformed

datatype py_exception = PyException

definition float_of :: "jnum \<Rightarrow> py_exception + real" where
  "float_of j = (case j of Absent \<Rightarrow> Inr 0 | Num r \<Rightarrow> Inr r | Malformed \<Rightarrow> Inl PyException)"

text \<open>
  One element of \<^verbatim>\<open>pairs\<close>: \<open>usd\<close> is \<^verbatim>\<open>x.get('liquidity', {}).get('usd', 0)\<close>.
\<close>

record trading_pair =
  usd :: jnum
  pairAddress :: "string option"
  dexId :: "string option"
  priceUsd :: jnum

text \<open>
  Python's \<^verbatim>\<open>max(pairs, key=...)\<close> after the first element: the keys are computed in
  order, a later element replaces the best one only when its key is greater, and an
  exception of the key function leaves \<^verbatim>\<open>max\<close>.
\<close>

fun max_pair :: "trading_pair \<Rightarrow> real \<Rightarrow> trading_pair list \<Rightarrow> py_exception + trading_pair" where
  "max_pair best k [] = Inr best"
| "max_pair best k (p # ps) =
     (case float_of (usd p) of
        Inl e \<Rightarrow> Inl e
      | Inr k1 \<Rightarrow> if k < k1 then max_pair p k1 ps else max_pair best k ps)"

text \<open>
  The reply to the HTTP GET: the request raises (connection error, timeout), or a status
  comes with a body that is not the expected JSON, or with the value of
  \<^verbatim>\<open>data.get('pairs', [])\<close> (\<open>None\<close> for null).
\<close>

datatype json_body = NotJson | Body "trading_pair list option"

datatype http_reply = RequestFailed | Reply int json_body

definition dexscreener_url :: "string \<Rightarrow> string" where
  "dexscreener_url token_address = ''https://api.dexscreener.com/latest/dex/tokens/'' @ token_address"

text \<open>
  The \<^verbatim>\<open>try\<close> block of \<^verbatim>\<open>check_liquidity_dexscreener\<close>: it raises (\<open>Inl\<close>), returns a
  snapshot, or falls through (\<open>Inr None\<close>); the second component lists the URLs requested.
\<close>

definition dexscreener_try :: "(string \<Rightarrow> http_reply) \<Rightarrow> string \<Rightarrow> (py_exception + snapshot option) \<times> string list" where
  "dexscreener_try http_get token_address =
     (if lower token_address = ''0x0000000000000000000000000000000000000000''
      then (Inr (Some zero_snapshot), [])
      else if \<not> startswith token_address ''0x'' \<or> length token_address \<noteq> 42
      then (Inr (Some zero_snapshot), [])
      else
        (let url = dexscreener_url token_address
         in ((case http_get url of
               RequestFailed \<Rightarrow> Inl PyException
             | Reply status body \<Rightarrow>
                 if status = 200 then
                   (case body of
                      NotJson \<Rightarrow> Inl PyException
                    | Body None \<Rightarrow> Inr (Some zero_snapshot)
                    | Body (Some []) \<Rightarrow> Inr (Some zero_snapshot)
                    | Body (Some (p # ps)) \<Rightarrow>
                        (case float_of (usd p) of
                           Inl e \<Rightarrow> Inl e
                         | Inr k \<Rightarrow>
                             (case max_pair p k ps of
                                Inl e \<Rightarrow> Inl e
                              | Inr best \<Rightarrow>
                                  (case float_of (usd best) of
                                     Inl e \<Rightarrow> Inl e
                                   | Inr liquidity \<Rightarrow>
                                       (case float_of (priceUsd best) of
                                          Inl e \<Rightarrow> Inl e
                                        | Inr price \<Rightarrow>
                                            Inr (Some
                                              \<lparr> has_liquidity = (0 < liquidity),
                                                liquidity_usd = liquidity,
                                                info = Some
                                                  \<lparr> best_pair = pairAddress best,
                                                    dex = dexId best,
                                                    price_usd = price \<rparr> \<rparr>))))))
                 else Inr None),
             [url])))"

text \<open>
  \<^verbatim>\<open>check_liquidity_dexscreener\<close>: an exception is caught and logged, and everything that
  did not return inside the \<^verbatim>\<open>try\<close> reaches the final \<^verbatim>\<open>return\<close> of the zero snapshot.
\<close>

definition check_liquidity_dexscreener :: "(string \<Rightarrow> http_reply) \<Rightarrow> string \<Rightarrow> snapshot \<times> string list" where
  "check_liquidity_dexscreener http_get token_address =
     (case dexscreener_try http_get token_address of
        (Inr (Some result), requests) \<Rightarrow> (result, requests)
      | (_, requests) \<Rightarrow> (zero_snapshot, requests))"


text \<open>The USD liquidity a pair counts with, where its field can be read.\<close>

definition usd_of :: "trading_pair \<Rightarrow> real" where
  "usd_of p = (case usd p of Num r \<Rightarrow> r | _ \<Rightarrow> 0)"

text \<open>A token address the check rejects before any request.\<close>

definition degenerate :: "string \<Rightarrow> bool" where
  "degenerate token_address =
     (lower token_address = ''0x0000000000000000000000000000000000000000'' \<or>
      \<not> startswith token_address ''0x'' \<or> length token_address \<noteq> 42)"


definition example_token :: string where
  "example_token = ''0xAAaa000000000000000000000000000000000002''"

definition example_pairs :: "trading_pair list" where
  "example_pairs =
     [\<lparr> usd = Num 1500, pairAddress = Some ''0xp1'', dexId = Some ''uniswap'', priceUsd = Num 2 \<rparr>,
      \<lparr> usd = Num 3500, pairAddress = Some ''0xp2'', dexId = Some ''aerodrome'', priceUsd = Num 3 \<rparr>,
      \<lparr> usd = Absent, pairAddress = Some ''0xp3'', dexId = None, priceUsd = Absent \<rparr>]"

definition example_http :: "string \<Rightarrow> http_reply" where
  "example_http url = Reply 200 (Body (Some example_pairs))"

section \<open>Swap orchestrator: \<^verbatim>\<open>SwapExecutor\<close> of swap\_executor.py\<close>

text \<open>
  The aggregators of the repository and the order of config.py
  (\<^verbatim>\<open>AGGREGATOR_PRIORITY = ["1inch", "0x", "uniswap", "okx"]\<close>).
\<close>

datatype provider = OneInch | ZeroEx | Uniswap | OKX

definition AGGREGATOR_PRIORITY :: "provider list" where
  "AGGREGATOR_PRIORITY = [OneInch, ZeroEx, Uniswap, OKX]"

text \<open>
  The replies the executor reads. Of a quote only \<^verbatim>\<open>buyAmount\<close> is read (for the log); of
  the swap data \<^verbatim>\<open>allowanceTarget\<close> (\<^verbatim>\<open>.get\<close>, so possibly \<open>None\<close>) and the
  \<^verbatim>\<open>transaction\<close> fields, of which \<^verbatim>\<open>tx_data['to']\<close> raises when absent.
\<close>

record quote =
  buyAmount :: "string option"

record swap_data =
  allowanceTarget :: "string option"
  tx_to :: "string option"

text \<open>
  What happens inside \<^verbatim>\<open>approve_token\<close>: an exception before the transaction is sent, an
  exception while waiting for its receipt, or the receipt arrives.
\<close>

datatype approve_outcome = ApproveNotSent | ApproveUnconfirmed string | ApproveMined string

text \<open>
  The world of one \<^verbatim>\<open>execute_swap\<close>: what each external call answers. For a quote or swap
  data, \<open>None\<close> is every reply the code treats as missing (\<^verbatim>\<open>None\<close> after a status other
  than 200 or an exception, or an empty object); elsewhere \<open>None\<close> (or \<open>False\<close>) is a call
  that raises. The \<^verbatim>\<open>allowance\<close> call returns the allowance the token contract holds for
  the spender, \<open>allowance_on_chain\<close>, unless it raises. \<open>receipt_reply\<close> is the status of
  the receipt.
\<close>

record chain_env =
  quote_reply :: "provider \<Rightarrow> quote option"
  swap_reply :: "provider \<Rightarrow> swap_data option"
  allowance_on_chain :: int
  allowance_call_raises :: bool
  approve_reply :: approve_outcome
  gas_price_reply :: "int option"
  nonce_reply :: "int option"
  sign_reply :: bool
  send_reply :: "string option"
  receipt_reply :: "int option"

text \<open>The external calls an execution makes, in order.\<close>

datatype effect =
    QuoteRequest provider
  | SwapTxRequest provider
  | AllowanceRead string "string option"
  | ApproveCall string "string option" int
  | ApproveSent string
  | ApproveConfirmed string
  | SwapSigned
  | SwapSent string
  | ReceiptRead int

definition get_0x_quote :: "chain_env \<Rightarrow> quote option \<times> effect list" where
  "get_0x_quote env = (quote_reply env ZeroEx, [QuoteRequest ZeroEx])"

definition get_0x_swap_tx :: "chain_env \<Rightarrow> swap_data option \<times> effect list" where
  "get_0x_swap_tx env = (swap_reply env ZeroEx, [SwapTxRequest ZeroEx])"

text \<open>
  \<^verbatim>\<open>check_allowance\<close>: any exception (also \<^verbatim>\<open>to_checksum_address(None)\<close>) gives 0.
\<close>

definition check_allowance :: "chain_env \<Rightarrow> string \<Rightarrow> string option \<Rightarrow> int \<times> effect list" where
  "check_allowance env token_address spender =
     (case spender of
        None \<Rightarrow> 0
      | Some sp \<Rightarrow> if allowance_call_raises env then 0 else allowance_on_chain env,
      [AllowanceRead token_address spender])"

text \<open>\<^verbatim>\<open>approve_token\<close>: the hash of the approval, or \<open>None\<close> after any exception.\<close>

definition approve_token :: "chain_env \<Rightarrow> string \<Rightarrow> string option \<Rightarrow> int \<Rightarrow> string option \<times> effect list" where
  "approve_token env token_address spender amount =
     (case spender of
        None \<Rightarrow> (None, [ApproveCall token_address spender amount])
      | Some sp \<Rightarrow>
          (case approve_reply env of
             ApproveNotSent \<Rightarrow> (None, [ApproveCall token_address spender amount])
           | ApproveUnconfirmed tx_hash \<Rightarrow>
               (None, [ApproveCall token_address spender amount, ApproveSent tx_hash])
           | ApproveMined tx_hash \<Rightarrow>
               (Some tx_hash,
                [ApproveCall token_address spender amount, ApproveSent tx_hash,
                 ApproveConfirmed tx_hash])))"

text \<open>
  Building \<^verbatim>\<open>tx_dict\<close>: \<open>None\<close> when \<^verbatim>\<open>tx_data['to']\<close> is absent or the gas price or the
  nonce cannot be read.
\<close>

definition build_tx :: "chain_env \<Rightarrow> swap_data \<Rightarrow> (string \<times> int \<times> int) option" where
  "build_tx env sd =
     (case tx_to sd of
        None \<Rightarrow> None
      | Some to_address \<Rightarrow>
          (case gas_price_reply env of
             None \<Rightarrow> None
           | Some gas_price \<Rightarrow>
               (case nonce_reply env of
                  None \<Rightarrow> None
                | Some nonce \<Rightarrow> Some (to_address, gas_price, nonce))))"

text \<open>
  \<^verbatim>\<open>execute_swap\<close>: the hash of the swap or \<open>None\<close>, and the calls made. The result of
  \<^verbatim>\<open>approve_token\<close> is not read.
\<close>

definition execute_swap :: "chain_env \<Rightarrow> string \<Rightarrow> string \<Rightarrow> int \<Rightarrow> string option \<times> effect list" where
  "execute_swap env token_in token_out amount_in =
     (case get_0x_quote env of
        (None, e1) \<Rightarrow> (None, e1)
      | (Some q, e1) \<Rightarrow>
          (case get_0x_swap_tx env of
             (None, e2) \<Rightarrow> (None, e1 @ e2)
           | (Some sd, e2) \<Rightarrow>
               (let allowance_target = allowanceTarget sd;
                    (current_allowance, e3) = check_allowance env token_in allowance_target;
                    e4 = (if current_allowance < amount_in
                          then snd (approve_token env token_in allowance_target (amount_in * 2))
                          else []);
                    before_signing = e1 @ e2 @ e3 @ e4
                in (case build_tx env sd of
                      None \<Rightarrow> (None, before_signing)
                    | Some tx_dict \<Rightarrow>
                        if \<not> sign_reply env then (None, before_signing)
                        else
                          (case send_reply env of
                             None \<Rightarrow> (None, before_signing @ [SwapSigned])
                           | Some tx_hash \<Rightarrow>
                               (case receipt_reply env of
                                  None \<Rightarrow> (None, before_signing @ [SwapSigned, SwapSent tx_hash])
                                | Some status \<Rightarrow>
                                    (if status = 1 then Some tx_hash else None,
                                     before_signing @
                                       [SwapSigned, SwapSent tx_hash, ReceiptRead status])))))))"

text \<open>Which calls belong to the approval, and which go to a given provider.\<close>

fun is_approval :: "effect \<Rightarrow> bool" where
  "is_approval (ApproveCall t sp a) = True"
| "is_approval (ApproveSent h) = True"
| "is_approval (ApproveConfirmed h) = True"
| "is_approval e = False"

fun asked :: "effect \<Rightarrow> provider option" where
  "asked (QuoteRequest p) = Some p"
| "asked (SwapTxRequest p) = Some p"
| "asked e = None"

text \<open>
  Example worlds. In the first, 0x has no quote while every other aggregator has one. In
  the second, everything succeeds except the approval, with no allowance yet.
\<close>

definition no_0x_quote :: chain_env where
  "no_0x_quote =
     \<lparr> quote_reply = (\<lambda>p. if p = ZeroEx then None else Some \<lparr> buyAmount = Some ''500'' \<rparr>),
       swap_reply = (\<lambda>p. if p = ZeroEx then None
                          else Some \<lparr> allowanceTarget = Some ''0xspender'', tx_to = Some ''0xrouter'' \<rparr>),
       allowance_on_chain = 0, allowance_call_raises = False,
       approve_reply = ApproveMined ''0xapprove'',
       gas_price_reply = Some 1, nonce_reply = Some 7, sign_reply = True,
       send_reply = Some ''0xswap'', receipt_reply = Some 1 \<rparr>"

definition all_succeed :: chain_env where
  "all_succeed =
     \<lparr> quote_reply = (\<lambda>p. Some \<lparr> buyAmount = Some ''500'' \<rparr>),
       swap_reply = (\<lambda>p. Some \<lparr> allowanceTarget = Some ''0xspender'', tx_to = Some ''0xrouter'' \<rparr>),
       allowance_on_chain = 0, allowance_call_raises = False,
       approve_reply = ApproveMined ''0xapprove'',
       gas_price_reply = Some 1, nonce_reply = Some 7, sign_reply = True,
       send_reply = Some ''0xswap'', receipt_reply = Some 1 \<rparr>"

definition approval_fails :: chain_env where
  "approval_fails = all_succeed\<lparr> approve_reply := ApproveNotSent \<rparr>"

text \<open>
  A world in which the contract holds an allowance of 5000, and one in which it does but
  the read of the allowance raises.
\<close>

definition enough_allowance :: chain_env where
  "enough_allowance = all_succeed\<lparr> allowance_on_chain := 5000 \<rparr>"

definition allowance_unreadable :: chain_env where
  "allowance_unreadable = enough_allowance\<lparr> allowance_call_raises := True \<rparr>"

section \<open>Sniper variant: \<^verbatim>\<open>SpecificTokenMonitor\<close> of sniper\_sell.py\<close>




text \<open>
  What the calls of one \<^verbatim>\<open>check_and_sell\<close> answer: \<^verbatim>\<open>get_balance\<close>,
  \<^verbatim>\<open>check_liquidity\<close>, \<^verbatim>\<open>get_token_total_supply\<close>, \<^verbatim>\<open>get_balance_wei\<close> (each of the three
  readers returns 0 when its call fails) and \<^verbatim>\<open>execute_swap\<close>.
\<close>

record check_replies =
  balance :: real
  liquidity :: snapshot
  total_supply :: real
  balance_wei :: int
  swap_tx :: "string option"








text \<open>
  For stating properties of an execution that has its quote and swap data \<open>sd\<close>: the calls
  made before the transaction is built, and the result and the calls from there on.
\<close>

definition before_signing :: "chain_env \<Rightarrow> swap_data \<Rightarrow> string \<Rightarrow> int \<Rightarrow> effect list" where
  "before_signing env sd token_in amount_in =
     [QuoteRequest ZeroEx, SwapTxRequest ZeroEx, AllowanceRead token_in (allowanceTarget sd)] @
     (if fst (check_allowance env token_in (allowanceTarget sd)) < amount_in
      then snd (approve_token env token_in (allowanceTarget sd) (amount_in * 2)) else [])"

definition from_signing :: "chain_env \<Rightarrow> swap_data \<Rightarrow> string option \<times> effect list" where
  "from_signing env sd =
     (case build_tx env sd of
        None \<Rightarrow> (None, [])
      | Some tx_dict \<Rightarrow>
          if \<not> sign_reply env then (None, [])
          else
            (case send_reply env of
               None \<Rightarrow> (None, [SwapSigned])
             | Some tx_hash \<Rightarrow>
                 (case receipt_reply env of
                    None \<Rightarrow> (None, [SwapSigned, SwapSent tx_hash])
                  | Some status \<Rightarrow>
                      (if status = 1 then Some tx_hash else None,
                       [SwapSigned, SwapSent tx_hash, ReceiptRead status]))))"

text \<open>
  The minimum of sniper\_sell.py (\<^verbatim>\<open>MIN_LIQUIDITY_USD = 1000\<close>) with a growth threshold of
  1.5, and with the threshold 1.0 the file sets.
\<close>




section \<open>Properties of the event watcher\<close>

lemma scan_log_processed:
  "event_key lg \<in> processed_events s \<Longrightarrow> scan_log cfg s lg = (s, None)"
  by (simp add: scan_log_def event_key_def)

lemma websocket_log_processed:
  "event_key lg \<in> processed_events s \<Longrightarrow> websocket_log cfg callback s lg = (s, [])"
  by (simp add: websocket_log_def event_key_def Let_def)

lemma scan_log_cases:
  "scan_log cfg s lg = (s, None) \<or>
   (event_key lg \<notin> processed_events s \<and>
    scan_log cfg s lg =
      (record_detection s (lower (address lg)) (transactionHash lg) (blockNumber lg),
       Some (to_checksum_address cfg (lower (address lg)))))"
  by (simp add: scan_log_def event_key_def Let_def)

lemma websocket_log_cases:
  "websocket_log cfg callback s lg = (s, []) \<or>
   (event_key lg \<notin> processed_events s \<and>
    websocket_log cfg callback s lg =
      (record_detection s (lower (address lg)) (transactionHash lg) (blockNumber lg),
       [invoke callback
          (record_detection s (lower (address lg)) (transactionHash lg) (blockNumber lg)) lg
          (to_checksum_address cfg (lower (address lg)))]))"
  by (simp add: websocket_log_def event_key_def Let_def)

lemma processed_record_detection:
  "processed_events (record_detection s (lower (address lg)) (transactionHash lg) b) =
     insert (event_key lg) (processed_events s)"
  by (simp add: record_detection_def event_key_def)

lemma grows_refl: "grows s s"
  by (simp add: grows_def)

lemma grows_trans: "grows s s1 \<Longrightarrow> grows s1 s2 \<Longrightarrow> grows s s2"
  unfolding grows_def by blast

lemma grows_record_detection: "grows s (record_detection s a t b)"
  by (auto simp: grows_def record_detection_def)

lemma recorded_record_detection:
  "recorded (record_detection s (lower (address lg)) (transactionHash lg) b) lg"
  by (simp add: recorded_def record_detection_def event_key_def)

lemma recorded_grows: "recorded s lg \<Longrightarrow> grows s s1 \<Longrightarrow> recorded s1 lg"
  unfolding recorded_def grows_def by blast

lemma grows_last_block_scanned: "grows s (s1\<lparr> last_block_scanned := c \<rparr>) = grows s s1"
  by (simp add: grows_def)

lemma recorded_last_block_scanned: "recorded (s1\<lparr> last_block_scanned := c \<rparr>) lg = recorded s1 lg"
  by (simp add: recorded_def)

lemma scan_logs_inv:
  "scan_logs cfg s logs = (s1, found) \<Longrightarrow>
     grows s s1 \<and>
     set (map (\<lambda>p. event_key (fst p)) found) \<inter> processed_events s = {} \<and>
     distinct (map (\<lambda>p. event_key (fst p)) found) \<and>
     (\<forall>p \<in> set found. recorded s1 (fst p))"
proof (induction logs arbitrary: s s1 found)
  case Nil
  then show ?case by (simp add: grows_refl)
next
  case (Cons lg logs)
  from scan_log_cases [of cfg s lg] show ?case
  proof
    assume "scan_log cfg s lg = (s, None)"
    with Cons.prems have "scan_logs cfg s logs = (s1, found)" by simp
    then show ?thesis by (rule Cons.IH)
  next
    assume a: "event_key lg \<notin> processed_events s \<and>
      scan_log cfg s lg =
      (record_detection s (lower (address lg)) (transactionHash lg) (blockNumber lg),
       Some (to_checksum_address cfg (lower (address lg))))"
    define sm where "sm = record_detection s (lower (address lg)) (transactionHash lg) (blockNumber lg)"
    obtain s2 f2 where r: "scan_logs cfg sm logs = (s2, f2)" by (cases "scan_logs cfg sm logs")
    from a r Cons.prems have eq: "s1 = s2" "found = (lg, to_checksum_address cfg (lower (address lg))) # f2"
      by (simp_all add: sm_def)
    from Cons.IH [OF r] have ih: "grows sm s2"
      "set (map (\<lambda>p. event_key (fst p)) f2) \<inter> processed_events sm = {}"
      "distinct (map (\<lambda>p. event_key (fst p)) f2)"
      "\<forall>p \<in> set f2. recorded s2 (fst p)" by blast+
    have pm: "processed_events sm = insert (event_key lg) (processed_events s)"
      by (simp add: sm_def processed_record_detection)
    have g: "grows s sm" by (simp add: sm_def grows_record_detection)
    have rm: "recorded sm lg" by (simp add: sm_def recorded_record_detection)
    have 1: "grows s s2" using g ih(1) by (rule grows_trans)
    have 2: "recorded s2 lg" using rm ih(1) by (rule recorded_grows)
    from a ih pm 1 2 show ?thesis unfolding eq by auto
  qed
qed

lemma scan_recent_blocks_inv:
  assumes "scan_recent_blocks cfg gw n s = (s1, found, oc)"
  shows "grows s s1 \<and>
     set (map (\<lambda>p. event_key (fst p)) found) \<inter> processed_events s = {} \<and>
     distinct (map (\<lambda>p. event_key (fst p)) found) \<and>
     (\<forall>p \<in> set found. recorded s1 (fst p))"
proof (cases "eth_block_number gw")
  case None
  with assms show ?thesis by (simp add: scan_recent_blocks_def grows_refl)
next
  case (Some c)
  show ?thesis
  proof (cases "eth_get_logs gw (max (c - n) (last_block_scanned s + 1)) c")
    case None
    with Some assms show ?thesis by (simp add: scan_recent_blocks_def grows_refl)
  next
    case (Some logs)
    obtain s2 f2 where r: "scan_logs cfg s logs = (s2, f2)" by (cases "scan_logs cfg s logs")
    from assms \<open>eth_block_number gw = Some c\<close> Some r
    have eq: "s1 = s2\<lparr> last_block_scanned := c \<rparr>" "found = f2"
      by (simp_all add: scan_recent_blocks_def)
    from scan_logs_inv [OF r] show ?thesis
      unfolding eq by (simp add: grows_last_block_scanned recorded_last_block_scanned)
  qed
qed

lemma emitted_keys_invoke:
  "emitted_keys (map (\<lambda>(lg, token). invoke callback s1 lg token) found) =
     map (\<lambda>p. event_key (fst p)) found"
  by (simp add: emitted_keys_def invoke_def case_prod_unfold)

lemma polling_cycle_inv:
  assumes "polling_cycle cfg callback gw s = (s1, es)"
  shows "grows s s1 \<and> set (emitted_keys es) \<inter> processed_events s = {} \<and>
     distinct (emitted_keys es) \<and> (\<forall>e \<in> set es. recorded (em_seen e) (em_log e)) \<and>
     (\<forall>e \<in> set es. recorded s1 (em_log e))"
proof -
  obtain s2 found oc where r: "scan_recent_blocks cfg gw (monitor_interval cfg) s = (s2, found, oc)"
    by (cases "scan_recent_blocks cfg gw (monitor_interval cfg) s")
  with assms have eq: "s1 = s2" "es = map (\<lambda>(lg, token). invoke callback s2 lg token) found"
    by (auto simp: polling_cycle_def)
  from scan_recent_blocks_inv [OF r] show ?thesis
    unfolding eq emitted_keys_invoke by (auto simp: invoke_def)
qed

lemma websocket_log_inv:
  assumes "websocket_log cfg callback s lg = (s1, es)"
  shows "grows s s1 \<and> set (emitted_keys es) \<inter> processed_events s = {} \<and>
     distinct (emitted_keys es) \<and> (\<forall>e \<in> set es. recorded (em_seen e) (em_log e)) \<and>
     (\<forall>e \<in> set es. recorded s1 (em_log e))"
  using websocket_log_cases [of cfg callback s lg] assms
  by (auto simp: grows_refl grows_record_detection recorded_record_detection
      emitted_keys_def invoke_def)

lemma watch_inv:
  "watch cfg callback s inputs = (s1, es) \<Longrightarrow>
     grows s s1 \<and> set (emitted_keys es) \<inter> processed_events s = {} \<and>
     distinct (emitted_keys es) \<and> (\<forall>e \<in> set es. recorded (em_seen e) (em_log e)) \<and>
     (\<forall>e \<in> set es. recorded s1 (em_log e))"
proof (induction inputs arbitrary: s s1 es)
  case Nil
  then show ?case by (simp add: grows_refl emitted_keys_def)
next
  case (Cons i inputs)
  obtain sm e1 where step: "watch cfg callback s [i] = (sm, e1)"
    by (cases "watch cfg callback s [i]")
  obtain s2 e2 where r: "watch cfg callback sm inputs = (s2, e2)"
    by (cases "watch cfg callback sm inputs")
  have one: "grows s sm \<and> set (emitted_keys e1) \<inter> processed_events s = {} \<and>
     distinct (emitted_keys e1) \<and> (\<forall>e \<in> set e1. recorded (em_seen e) (em_log e)) \<and>
     (\<forall>e \<in> set e1. recorded sm (em_log e))"
  proof (cases i)
    case (Poll gw)
    with step have "polling_cycle cfg callback gw s = (sm, e1)"
      by (simp split: prod.splits)
    then show ?thesis by (rule polling_cycle_inv)
  next
    case (Notify lg)
    with step have "websocket_log cfg callback s lg = (sm, e1)"
      by (simp split: prod.splits)
    then show ?thesis by (rule websocket_log_inv)
  qed
  from step r Cons.prems have eq: "s1 = s2" "es = e1 @ e2"
    by (cases i; simp split: prod.splits)+
  note ih = Cons.IH [OF r]
  have g: "grows s s2" using one ih grows_trans by blast
  have sub: "processed_events s \<subseteq> processed_events sm" using one by (simp add: grows_def)
  have k1: "set (emitted_keys e1) \<subseteq> processed_events sm"
    using one by (auto simp: emitted_keys_def recorded_def)
  have r1: "\<forall>e \<in> set e1. recorded s2 (em_log e)"
    using one ih recorded_grows by blast
  have d: "distinct (emitted_keys (e1 @ e2))"
    using one ih k1 by (auto simp: emitted_keys_def)
  have dis: "set (emitted_keys (e1 @ e2)) \<inter> processed_events s = {}"
    using one ih sub by (auto simp: emitted_keys_def)
  show ?case unfolding eq using g d dis one ih r1 by auto
qed

lemma lower_example_token:
  "lower ''0xAAaa000000000000000000000000000000000002'' = ''0xaaaa000000000000000000000000000000000002''"
  by (simp add: lower_def lower_char_def)

lemma example_to_wallet: "to_wallet example_config (example_log tx b)"
  by (simp add: to_wallet_def example_config_def example_log_def last_n_def lower_def lower_char_def)

lemma example_event_key:
  "event_key (example_log tx b) = (''0xaaaa000000000000000000000000000000000002'', tx)"
  by (simp add: event_key_def example_log_def lower_example_token)

lemma example_address:
  "lower (address (example_log tx b)) = ''0xaaaa000000000000000000000000000000000002''"
  by (simp add: example_log_def lower_example_token)

lemma lower_char_idem: "lower_char (lower_char c) = lower_char c"
  by (simp add: lower_char_def)

lemma lower_idem: "lower (lower s) = lower s"
  by (simp add: lower_def lower_char_idem)

lemma lower_0x: "lower (''0x'' @ s) = ''0x'' @ lower s"
  by (simp add: lower_def lower_char_def)

lemma count_list_distinct: "distinct xs \<Longrightarrow> x \<in> set xs \<Longrightarrow> count_list xs x = 1"
  by (induction xs) (auto simp: count_list_0_iff)

lemma scan_log_fresh:
  assumes "to_wallet cfg lg" and "event_key lg \<notin> processed_events s"
    and "\<not> cooldown_active cfg s (lower (address lg)) (blockNumber lg)"
  shows "scan_log cfg s lg =
      (record_detection s (lower (address lg)) (transactionHash lg) (blockNumber lg),
       Some (to_checksum_address cfg (lower (address lg))))"
  using assms by (simp add: scan_log_def to_wallet_def event_key_def Let_def)

lemma websocket_log_fresh:
  assumes "to_wallet cfg lg" and "event_key lg \<notin> processed_events s"
    and "\<not> cooldown_active cfg s (lower (address lg)) (blockNumber lg)"
  shows "websocket_log cfg callback s lg =
      (record_detection s (lower (address lg)) (transactionHash lg) (blockNumber lg),
       [invoke callback
          (record_detection s (lower (address lg)) (transactionHash lg) (blockNumber lg)) lg
          (to_checksum_address cfg (lower (address lg)))])"
  using assms by (simp add: websocket_log_def to_wallet_def event_key_def Let_def lower_idem)

lemma scan_log_cooldown:
  assumes "to_wallet cfg lg"
    and "cooldown_active cfg s (lower (address lg)) (blockNumber lg)"
  shows "scan_log cfg s lg = (s, None)"
  using assms by (simp add: scan_log_def to_wallet_def Let_def)

lemma websocket_log_cooldown:
  assumes "cooldown_active cfg s (lower (address lg)) (blockNumber lg)"
  shows "websocket_log cfg callback s lg = (s, [])"
  using assms by (simp add: websocket_log_def Let_def)

lemma watch_distinct:
  "distinct (emitted_keys (snd (watch cfg callback s inputs))) \<and>
   set (emitted_keys (snd (watch cfg callback s inputs))) \<inter> processed_events s = {}"
  using watch_inv [of cfg callback s inputs "fst (watch cfg callback s inputs)"
      "snd (watch cfg callback s inputs)"]
  by simp

lemma watch_Notify_fresh:
  assumes "to_wallet cfg lg" and "event_key lg \<notin> processed_events s"
    and "\<not> cooldown_active cfg s (lower (address lg)) (blockNumber lg)"
  shows "event_key lg \<in> set (emitted_keys (snd (watch cfg callback s (Notify lg # rest))))"
  using websocket_log_fresh [OF assms, of callback]
  by (simp add: emitted_keys_def invoke_def split: prod.splits)

lemma watch_Poll_fresh:
  assumes "to_wallet cfg lg" and "event_key lg \<notin> processed_events s"
    and "\<not> cooldown_active cfg s (lower (address lg)) (blockNumber lg)"
    and "eth_block_number gw = Some c"
    and "eth_get_logs gw (max (c - monitor_interval cfg) (last_block_scanned s + 1)) c =
           Some (lg # logs)"
  shows "event_key lg \<in> set (emitted_keys (snd (watch cfg callback s (Poll gw # rest))))"
  using scan_log_fresh [OF assms(1-3)] assms(4,5)
  by (simp add: emitted_keys_def invoke_def polling_cycle_def scan_recent_blocks_def
      split: prod.splits)

text \<open>
  Claim C1. A \<open>(tokenAddress, txHash)\<close> pair is processed at most once over the watcher's
  lifetime, in both modes. A log whose pair is already in \<^verbatim>\<open>processed_events\<close> changes
  nothing and causes no emission, in the polling loop and in the subscription loop. In any
  run of polling cycles and notifications, from any state, the pairs of the emissions are
  pairwise different and none of them was in \<^verbatim>\<open>processed_events\<close> at the start. A log
  to the wallet that is new and not in cooldown, delivered by a notification or by a polling
  cycle and then delivered again any number of times in any way, causes exactly one
  emission; feeding the same log twice is the case of one later delivery.
\<close>

theorem pair_emitted_at_most_once:
  "(event_key lg \<in> processed_events s \<longrightarrow>
      scan_log cfg s lg = (s, None) \<and> websocket_log cfg callback s lg = (s, [])) \<and>
   distinct (emitted_keys (snd (watch cfg callback s inputs))) \<and>
   set (emitted_keys (snd (watch cfg callback s inputs))) \<inter> processed_events s = {} \<and>
   (to_wallet cfg lg \<and> event_key lg \<notin> processed_events s \<and>
    \<not> cooldown_active cfg s (lower (address lg)) (blockNumber lg) \<longrightarrow>
      count_list (emitted_keys (snd (watch cfg callback s (Notify lg # rest)))) (event_key lg) = 1 \<and>
      (eth_block_number gw = Some c \<and>
       eth_get_logs gw (max (c - monitor_interval cfg) (last_block_scanned s + 1)) c =
         Some (lg # logs) \<longrightarrow>
       count_list (emitted_keys (snd (watch cfg callback s (Poll gw # rest)))) (event_key lg) = 1))"
proof -
  have a: "event_key lg \<in> processed_events s \<longrightarrow>
      scan_log cfg s lg = (s, None) \<and> websocket_log cfg callback s lg = (s, [])"
    by (simp add: scan_log_processed websocket_log_processed)
  have b: "distinct (emitted_keys (snd (watch cfg callback s inputs))) \<and>
      set (emitted_keys (snd (watch cfg callback s inputs))) \<inter> processed_events s = {}"
    by (rule watch_distinct)
  have c: "count_list (emitted_keys (snd (watch cfg callback s (Notify lg # rest)))) (event_key lg) = 1"
    if "to_wallet cfg lg" "event_key lg \<notin> processed_events s"
      "\<not> cooldown_active cfg s (lower (address lg)) (blockNumber lg)"
    using watch_distinct [of cfg callback s "Notify lg # rest"] watch_Notify_fresh [OF that]
    by (blast intro: count_list_distinct)
  have d: "count_list (emitted_keys (snd (watch cfg callback s (Poll gw # rest)))) (event_key lg) = 1"
    if "to_wallet cfg lg" "event_key lg \<notin> processed_events s"
      "\<not> cooldown_active cfg s (lower (address lg)) (blockNumber lg)"
      "eth_block_number gw = Some c"
      "eth_get_logs gw (max (c - monitor_interval cfg) (last_block_scanned s + 1)) c = Some (lg # logs)"
    using watch_distinct [of cfg callback s "Poll gw # rest"] watch_Poll_fresh [OF that]
    by (blast intro: count_list_distinct)
  from a b c d show ?thesis by blast
qed

lemma example_fresh:
  "event_key (example_log tx b) \<notin> processed_events new_monitor \<and>
   \<not> cooldown_active example_config new_monitor (lower (address (example_log tx b)))
       (blockNumber (example_log tx b))"
  by (simp add: new_monitor_def cooldown_active_def)

theorem pair_emitted_at_most_once_witness:
  "to_wallet example_config (example_log ''0x01'' 100) \<and>
   event_key (example_log ''0x01'' 100) \<notin> processed_events new_monitor \<and>
   \<not> cooldown_active example_config new_monitor
       (lower (address (example_log ''0x01'' 100))) (blockNumber (example_log ''0x01'' 100)) \<and>
   count_list (emitted_keys (snd (watch example_config raising_handler new_monitor
       [Notify (example_log ''0x01'' 100), Notify (example_log ''0x01'' 100)])))
     (event_key (example_log ''0x01'' 100)) = 1 \<and>
   eth_block_number (example_gateway 100 [example_log ''0x01'' 100]) = Some 100 \<and>
   count_list (emitted_keys (snd (watch example_config raising_handler new_monitor
       [Poll (example_gateway 100 [example_log ''0x01'' 100]),
        Poll (example_gateway 101 [example_log ''0x01'' 100])])))
     (event_key (example_log ''0x01'' 100)) = 1"
  using pair_emitted_at_most_once [where lg = "example_log ''0x01'' 100" and s = new_monitor
      and cfg = example_config and callback = raising_handler and inputs = "[]"
      and rest = "[Notify (example_log ''0x01'' 100)]" and c = 100 and logs = "[]"
      and gw = "example_gateway 100 [example_log ''0x01'' 100]"]
    pair_emitted_at_most_once [where lg = "example_log ''0x01'' 100" and s = new_monitor
      and cfg = example_config and callback = raising_handler and inputs = "[]"
      and rest = "[Poll (example_gateway 101 [example_log ''0x01'' 100])]" and c = 100
      and logs = "[]" and gw = "example_gateway 100 [example_log ''0x01'' 100]"]
    example_to_wallet [of "''0x01''" 100] example_fresh [of "''0x01''" 100]
  by (simp add: example_gateway_def)

text \<open>
  Claim C2, as amended. For a token with an entry in \<^verbatim>\<open>token_last_block\<close>, a transfer to
  the wallet with a new transaction hash is suppressed in both loops when it comes fewer
  than \<^verbatim>\<open>DUPLICATE_CHECK_BLOCKS\<close> blocks after the recorded block, and is emitted when it
  comes \<^verbatim>\<open>DUPLICATE_CHECK_BLOCKS\<close> blocks after it or later: at exactly the cooldown
  already, and so at the cooldown plus one. With cooldown 3 and the token first seen at
  block 100, transfers at blocks 101 and 102 are suppressed and transfers at blocks 103 and
  104 are emitted.

  The claim as stated fails at the boundary (the counterexample below): the transfer at
  block 103 is within 3 blocks of block 100 and is emitted.
\<close>

theorem cooldown_suppresses_then_emits:
  assumes "token_last_block s (lower (address lg)) = Some last_block"
    and "to_wallet cfg lg"
    and "event_key lg \<notin> processed_events s"
  shows "(blockNumber lg - last_block < DUPLICATE_CHECK_BLOCKS cfg \<longrightarrow>
            scan_log cfg s lg = (s, None) \<and> websocket_log cfg callback s lg = (s, [])) \<and>
         (DUPLICATE_CHECK_BLOCKS cfg \<le> blockNumber lg - last_block \<longrightarrow>
            snd (scan_log cfg s lg) = Some (to_checksum_address cfg (lower (address lg))) \<and>
            map em_token (snd (websocket_log cfg callback s lg)) =
              [to_checksum_address cfg (lower (address lg))])"
proof (intro conjI impI)
  assume "blockNumber lg - last_block < DUPLICATE_CHECK_BLOCKS cfg"
  with assms(1) have cd: "cooldown_active cfg s (lower (address lg)) (blockNumber lg)"
    by (simp add: cooldown_active_def)
  show "scan_log cfg s lg = (s, None)"
    using assms(2) cd by (rule scan_log_cooldown)
  show "websocket_log cfg callback s lg = (s, [])"
    using cd by (rule websocket_log_cooldown)
next
  assume "DUPLICATE_CHECK_BLOCKS cfg \<le> blockNumber lg - last_block"
  with assms(1) have cd: "\<not> cooldown_active cfg s (lower (address lg)) (blockNumber lg)"
    by (simp add: cooldown_active_def)
  show "snd (scan_log cfg s lg) = Some (to_checksum_address cfg (lower (address lg)))"
    by (simp add: scan_log_fresh [OF assms(2,3) cd])
  show "map em_token (snd (websocket_log cfg callback s lg)) =
      [to_checksum_address cfg (lower (address lg))]"
    by (simp add: websocket_log_fresh [OF assms(2,3) cd] invoke_def)
qed

lemma seen_at_100_eq:
  "seen_at_100 = record_detection new_monitor ''0xaaaa000000000000000000000000000000000002'' ''0x01'' 100"
proof -
  note f = example_fresh [of "''0x01''" 100]
  have "seen_at_100 = record_detection new_monitor
      (lower (address (example_log ''0x01'' 100))) (transactionHash (example_log ''0x01'' 100))
      (blockNumber (example_log ''0x01'' 100))"
    unfolding seen_at_100_def
    by (simp add: scan_log_fresh [OF example_to_wallet f [THEN conjunct1] f [THEN conjunct2]])
  then show ?thesis
    by (simp add: example_address) (simp add: example_log_def)
qed

lemma seen_at_100_last:
  "token_last_block seen_at_100 (lower (address (example_log tx b))) = Some 100"
  by (simp add: seen_at_100_eq record_detection_def example_address)

lemma seen_at_100_fresh:
  "tx \<noteq> ''0x01'' \<Longrightarrow> event_key (example_log tx b) \<notin> processed_events seen_at_100"
  by (simp add: seen_at_100_eq record_detection_def example_event_key new_monitor_def)

lemma example_log_block: "blockNumber (example_log tx b) = b"
  by (simp add: example_log_def)

lemma example_config_fields:
  "DUPLICATE_CHECK_BLOCKS example_config = 3" "to_checksum_address example_config a = a"
  by (simp_all add: example_config_def)

lemma seen_at_100_emits:
  assumes "tx \<noteq> ''0x01''" and "103 \<le> b"
  shows "snd (scan_log example_config seen_at_100 (example_log tx b)) =
     Some ''0xaaaa000000000000000000000000000000000002''"
proof -
  have "\<not> cooldown_active example_config seen_at_100 (lower (address (example_log tx b)))
      (blockNumber (example_log tx b))"
    using assms(2)
    by (simp add: cooldown_active_def seen_at_100_last example_log_block example_config_fields)
  from scan_log_fresh [OF example_to_wallet seen_at_100_fresh [OF assms(1)] this]
  show ?thesis by (simp add: example_config_fields example_address)
qed

theorem emitted_at_exactly_the_cooldown:
  "token_last_block seen_at_100 (lower (address (example_log ''0x02'' 103))) = Some 100 \<and>
   blockNumber (example_log ''0x02'' 103) - 100 \<le> DUPLICATE_CHECK_BLOCKS example_config \<and>
   snd (scan_log example_config seen_at_100 (example_log ''0x02'' 103)) =
     Some ''0xaaaa000000000000000000000000000000000002''"
  by (simp add: seen_at_100_last example_log_block example_config_fields seen_at_100_emits)

theorem cooldown_suppresses_then_emits_witness:
  "DUPLICATE_CHECK_BLOCKS example_config = 3 \<and>
   token_last_block seen_at_100 (lower (address (example_log ''0x02'' 101))) = Some 100 \<and>
   scan_log example_config seen_at_100 (example_log ''0x02'' 101) = (seen_at_100, None) \<and>
   websocket_log example_config raising_handler seen_at_100 (example_log ''0x02'' 102) =
     (seen_at_100, []) \<and>
   snd (scan_log example_config seen_at_100 (example_log ''0x03'' 103)) =
     Some ''0xaaaa000000000000000000000000000000000002'' \<and>
   map em_token (snd (websocket_log example_config raising_handler seen_at_100
       (example_log ''0x03'' 104))) = [''0xaaaa000000000000000000000000000000000002'']"
proof -
  note l = seen_at_100_last
  have f2: "event_key (example_log ''0x02'' b) \<notin> processed_events seen_at_100" for b
    by (simp add: seen_at_100_fresh)
  have f3: "event_key (example_log ''0x03'' b) \<notin> processed_events seen_at_100" for b
    by (simp add: seen_at_100_fresh)
  note b = example_log_block
  note c = example_config_fields
  show ?thesis
    using cooldown_suppresses_then_emits [OF l example_to_wallet f2, of 101 raising_handler]
      cooldown_suppresses_then_emits [OF l example_to_wallet f2, of 102 raising_handler]
      cooldown_suppresses_then_emits [OF l example_to_wallet f3, of 103 raising_handler]
      cooldown_suppresses_then_emits [OF l example_to_wallet f3, of 104 raising_handler]
    by (simp add: b c l [unfolded example_address] example_address)
qed







lemma scan_log_last: "last_block_scanned (fst (scan_log cfg s lg)) = last_block_scanned s"
  using scan_log_cases [of cfg s lg] by (auto simp: record_detection_def)

lemma scan_logs_last: "last_block_scanned (fst (scan_logs cfg s logs)) = last_block_scanned s"
proof (induction logs arbitrary: s)
  case Nil
  show ?case by simp
next
  case (Cons lg logs)
  obtain s1 r where sl: "scan_log cfg s lg = (s1, r)" by (cases "scan_log cfg s lg")
  with scan_log_last [of cfg s lg] have "last_block_scanned s1 = last_block_scanned s" by simp
  with Cons.IH [of s1] sl show ?case by (cases r) (simp_all add: split_beta)
qed

lemma scan_recent_blocks_scanned:
  assumes "eth_block_number gw = Some c"
    and "eth_get_logs gw (max (c - n) (last_block_scanned s + 1)) c = Some logs"
  shows "scan_recent_blocks cfg gw n s =
      ((fst (scan_logs cfg s logs))\<lparr> last_block_scanned := c \<rparr>, snd (scan_logs cfg s logs),
       Scanned (max (c - n) (last_block_scanned s + 1)) c)"
  using assms by (simp add: scan_recent_blocks_def split: prod.splits)

lemma scan_recent_blocks_failed:
  assumes "\<forall>a b. snd (snd (scan_recent_blocks cfg gw n s)) \<noteq> Scanned a b"
  shows "scan_recent_blocks cfg gw n s = (s, [], snd (snd (scan_recent_blocks cfg gw n s)))"
  using assms by (simp add: scan_recent_blocks_def Let_def split: option.splits prod.splits)

lemma polling_run:
  "heights_not_below cfg s gws \<Longrightarrow>
     last_block_scanned s \<le> last_block_scanned (polling_state cfg s gws) \<and>
     sorted_wrt (\<lambda>r r'. snd r < fst r') (polling_ranges cfg s gws) \<and>
     (\<forall>r \<in> set (polling_ranges cfg s gws). last_block_scanned s < fst r)"
proof (induction gws arbitrary: s)
  case Nil
  show ?case by simp
next
  case (Cons gw gws)
  let ?scan = "scan_recent_blocks cfg gw (monitor_interval cfg) s"
  from Cons.prems have rest: "heights_not_below cfg (fst ?scan) gws" by simp
  note ih = Cons.IH [OF rest]
  show ?case
  proof (cases "eth_block_number gw")
    case None
    then have st: "?scan = (s, [], BlockNumberFailed)"
      by (simp add: scan_recent_blocks_def)
    from ih show ?thesis by (simp add: st)
  next
    case (Some c)
    with Cons.prems have le: "last_block_scanned s \<le> c" by simp
    let ?a = "max (c - monitor_interval cfg) (last_block_scanned s + 1)"
    show ?thesis
    proof (cases "eth_get_logs gw ?a c")
      case None
      with Some have st: "?scan = (s, [], GetLogsFailed ?a c)"
        by (simp add: scan_recent_blocks_def)
      from ih show ?thesis by (simp add: st)
    next
      case (Some logs)
      let ?s1 = "(fst (scan_logs cfg s logs))\<lparr> last_block_scanned := c \<rparr>"
      from scan_recent_blocks_scanned [OF \<open>eth_block_number gw = Some c\<close> Some]
      have st: "?scan = (?s1, snd (scan_logs cfg s logs), Scanned ?a c)" .
      have l1: "last_block_scanned ?s1 = c" by simp
      from ih
      have ih1: "c \<le> last_block_scanned (polling_state cfg ?s1 gws)"
        "sorted_wrt (\<lambda>r r'. snd r < fst r') (polling_ranges cfg ?s1 gws)"
        "\<forall>r \<in> set (polling_ranges cfg ?s1 gws). c < fst r"
        unfolding st fst_conv l1 by blast+
      have a: "last_block_scanned s < ?a" by simp
      from ih1 le a show ?thesis by (auto simp: st)
    qed
  qed
qed

text \<open>
  Claim C6, as amended. A polling cycle whose gateway calls succeed asks for the range
  \<open>[max (currentBlock - window) (lastBlockScanned + 1), currentBlock]\<close> and sets
  \<^verbatim>\<open>last_block_scanned\<close> to the current block, whatever was found; of the blocks after
  \<^verbatim>\<open>last_block_scanned\<close> up to the current block it covers exactly those from
  \<open>currentBlock - window\<close> on, so it leaves no gap only when the chain has advanced by at
  most \<open>window + 1\<close> blocks. A cycle that does not complete the scan leaves
  \<^verbatim>\<open>last_block_scanned\<close> as it was. Over successive cycles with the configured window,
  when no gateway reports a height below \<^verbatim>\<open>last_block_scanned\<close> as it stands when its
  cycle starts (also after cycles that failed),
  \<^verbatim>\<open>last_block_scanned\<close> does not decrease and every scanned range starts after the end of
  every earlier one and after the initial \<^verbatim>\<open>last_block_scanned\<close>: no block is scanned
  twice and there is no overlap.

  The claim as stated fails (the counterexample below): with the window of
  10 blocks, cycles at heights 100, 200 and 205 scan 90--100, 190--200 and 201--205, so the
  blocks 101--189 are scanned by no cycle; and a gateway that reports height 50 after
  height 100 sets \<^verbatim>\<open>last_block_scanned\<close> back to 50.
\<close>

theorem polling_ranges_disjoint_and_bounded:
  "(eth_block_number gw = Some c \<and>
    eth_get_logs gw (max (c - n) (last_block_scanned s + 1)) c = Some logs \<longrightarrow>
      snd (snd (scan_recent_blocks cfg gw n s)) =
        Scanned (max (c - n) (last_block_scanned s + 1)) c \<and>
      last_block_scanned (fst (scan_recent_blocks cfg gw n s)) = c \<and>
      (\<forall>k. last_block_scanned s < k \<and> k \<le> c \<longrightarrow>
         (max (c - n) (last_block_scanned s + 1) \<le> k) = (c - n \<le> k))) \<and>
   ((\<forall>a b. snd (snd (scan_recent_blocks cfg gw n s)) \<noteq> Scanned a b) \<longrightarrow>
      last_block_scanned (fst (scan_recent_blocks cfg gw n s)) = last_block_scanned s) \<and>
   (heights_not_below cfg s gws \<longrightarrow>
      last_block_scanned s \<le> last_block_scanned (polling_state cfg s gws) \<and>
      sorted_wrt (\<lambda>r r'. snd r < fst r') (polling_ranges cfg s gws) \<and>
      (\<forall>r \<in> set (polling_ranges cfg s gws). last_block_scanned s < fst r))"
proof (intro conjI impI)
  assume a: "eth_block_number gw = Some c \<and>
    eth_get_logs gw (max (c - n) (last_block_scanned s + 1)) c = Some logs"
  note st = scan_recent_blocks_scanned [OF a [THEN conjunct1] a [THEN conjunct2], of cfg]
  show "snd (snd (scan_recent_blocks cfg gw n s)) =
      Scanned (max (c - n) (last_block_scanned s + 1)) c"
    by (simp add: st)
  show "last_block_scanned (fst (scan_recent_blocks cfg gw n s)) = c"
    by (simp add: st)
  show "\<forall>k. last_block_scanned s < k \<and> k \<le> c \<longrightarrow>
      (max (c - n) (last_block_scanned s + 1) \<le> k) = (c - n \<le> k)"
    by auto
next
  assume "\<forall>a b. snd (snd (scan_recent_blocks cfg gw n s)) \<noteq> Scanned a b"
  from scan_recent_blocks_failed [OF this]
  show "last_block_scanned (fst (scan_recent_blocks cfg gw n s)) = last_block_scanned s"
    by (metis fst_conv)
next
  assume h: "heights_not_below cfg s gws"
  from polling_run [OF h]
  show "last_block_scanned s \<le> last_block_scanned (polling_state cfg s gws)"
    "sorted_wrt (\<lambda>r r'. snd r < fst r') (polling_ranges cfg s gws)"
    "\<forall>r \<in> set (polling_ranges cfg s gws). last_block_scanned s < fst r"
    by blast+
qed

lemma example_scan_empty:
  "scan_recent_blocks example_config (example_gateway h []) 10 s =
     (s\<lparr> last_block_scanned := h \<rparr>, [], Scanned (max (h - 10) (last_block_scanned s + 1)) h)"
  by (simp add: scan_recent_blocks_def example_gateway_def)

lemma example_interval: "monitor_interval example_config = 10"
  by (simp add: example_config_def)

theorem blocks_skipped_between_cycles:
  "polling_ranges example_config new_monitor
     [example_gateway 100 [], example_gateway 200 [], example_gateway 205 []] =
     [(90, 100), (190, 200), (201, 205)] \<and>
   last_block_scanned (polling_state example_config new_monitor
     [example_gateway 100 [], example_gateway 50 []]) = 50"
  by (simp add: example_interval example_scan_empty new_monitor_def)

lemma example_scan_failing:
  "scan_recent_blocks example_config (failing_gateway h) 10 s =
     (s, [], GetLogsFailed (max (h - 10) (last_block_scanned s + 1)) h)"
  by (simp add: scan_recent_blocks_def failing_gateway_def)

lemma example_heights:
  "eth_block_number (example_gateway h logs) = Some h" "eth_block_number (failing_gateway h) = Some h"
  by (simp_all add: example_gateway_def failing_gateway_def)

theorem polling_ranges_disjoint_and_bounded_witness:
  "heights_not_below example_config new_monitor
     [example_gateway 100 [], failing_gateway 105, example_gateway 103 []] \<and>
   last_block_scanned new_monitor \<le> last_block_scanned (polling_state example_config new_monitor
     [example_gateway 100 [], failing_gateway 105, example_gateway 103 []]) \<and>
   sorted_wrt (\<lambda>r r'. snd r < fst r') (polling_ranges example_config new_monitor
     [example_gateway 100 [], failing_gateway 105, example_gateway 103 []]) \<and>
   polling_ranges example_config new_monitor
     [example_gateway 100 [], failing_gateway 105, example_gateway 103 []] =
     [(90, 100), (101, 103)] \<and>
   eth_block_number (example_gateway 100 []) = Some 100 \<and>
   snd (snd (scan_recent_blocks example_config (example_gateway 100 []) 10 new_monitor)) =
     Scanned 90 100 \<and>
   last_block_scanned (fst (scan_recent_blocks example_config (example_gateway 100 []) 10
     new_monitor)) = 100"
proof -
  let ?run = "[example_gateway 100 [], failing_gateway 105, example_gateway 103 []]"
  have h: "heights_not_below example_config new_monitor ?run"
    by (simp add: example_interval example_scan_empty example_scan_failing example_heights
        new_monitor_def)
  have r: "polling_ranges example_config new_monitor ?run = [(90, 100), (101, 103)]"
    by (simp add: example_interval example_scan_empty example_scan_failing new_monitor_def)
  have g: "eth_block_number (example_gateway 100 []) = Some 100"
    "eth_get_logs (example_gateway 100 []) (max (100 - 10) (last_block_scanned new_monitor + 1))
       100 = Some []"
    by (simp_all add: example_gateway_def)
  note t = polling_ranges_disjoint_and_bounded [where s = new_monitor and cfg = example_config
      and gw = "example_gateway 100 []" and c = 100 and n = 10 and logs = "[]" and gws = ?run]
  from t h have 1: "last_block_scanned new_monitor \<le>
      last_block_scanned (polling_state example_config new_monitor ?run)"
    "sorted_wrt (\<lambda>r r'. snd r < fst r') (polling_ranges example_config new_monitor ?run)"
    by blast+
  from t g have 2: "snd (snd (scan_recent_blocks example_config (example_gateway 100 []) 10
      new_monitor)) = Scanned (max (100 - 10) (last_block_scanned new_monitor + 1)) 100"
    "last_block_scanned (fst (scan_recent_blocks example_config (example_gateway 100 []) 10
      new_monitor)) = 100"
    by blast+
  from 2(1) have 3: "snd (snd (scan_recent_blocks example_config (example_gateway 100 []) 10
      new_monitor)) = Scanned 90 100"
    by (simp add: new_monitor_def)
  from h 1 r g(1) 3 2(2) show ?thesis by blast
qed

section \<open>Properties of the liquidity gate\<close>

lemma float_of_usd_of: "float_of (usd p) = Inr k \<Longrightarrow> usd_of p = k"
  by (auto simp: float_of_def usd_of_def split: jnum.splits)

lemma max_pair_best:
  "max_pair b k ps = Inr best \<Longrightarrow> usd_of b = k \<Longrightarrow>
     best \<in> set (b # ps) \<and> k \<le> usd_of best \<and> (\<forall>p \<in> set ps. usd_of p \<le> usd_of best) \<and>
     (\<forall>p \<in> set ps. usd p \<noteq> Malformed)"
proof (induction ps arbitrary: b k)
  case Nil
  then show ?case by simp
next
  case (Cons p ps)
  from Cons.prems(1) obtain k1 where k1: "float_of (usd p) = Inr k1"
    by (cases "float_of (usd p)") simp_all
  then have u: "usd_of p = k1" by (rule float_of_usd_of)
  from k1 have nm: "usd p \<noteq> Malformed" by (auto simp: float_of_def)
  show ?case
  proof (cases "k < k1")
    case True
    with Cons.prems k1 have "max_pair p k1 ps = Inr best" by simp
    from Cons.IH [OF this u] True u nm show ?thesis by auto
  next
    case False
    with Cons.prems k1 have "max_pair b k ps = Inr best" by simp
    from Cons.IH [OF this Cons.prems(2)] False u nm show ?thesis by auto
  qed
qed

lemma check_degenerate:
  "degenerate token \<Longrightarrow> check_liquidity_dexscreener http_get token = (zero_snapshot, [])"
  by (auto simp: degenerate_def check_liquidity_dexscreener_def dexscreener_try_def)

lemma check_requests:
  "\<not> degenerate token \<Longrightarrow>
     snd (check_liquidity_dexscreener http_get token) = [dexscreener_url token]"
  by (auto simp: degenerate_def check_liquidity_dexscreener_def dexscreener_try_def Let_def
      split: sum.splits option.splits)

lemma check_success:
  assumes "fst (check_liquidity_dexscreener http_get token) \<noteq> zero_snapshot"
  shows "\<exists>pairs best. http_get (dexscreener_url token) = Reply 200 (Body (Some pairs)) \<and>
     best \<in> set pairs \<and> (\<forall>p \<in> set pairs. usd_of p \<le> usd_of best) \<and>
     (\<forall>p \<in> set pairs. usd p \<noteq> Malformed) \<and> priceUsd best \<noteq> Malformed \<and>
     fst (check_liquidity_dexscreener http_get token) =
       \<lparr> has_liquidity = (0 < usd_of best), liquidity_usd = usd_of best,
         info = Some \<lparr> best_pair = pairAddress best, dex = dexId best,
                       price_usd = (case priceUsd best of Num r \<Rightarrow> r | _ \<Rightarrow> 0) \<rparr> \<rparr>"
proof -
  from assms have nd: "\<not> degenerate token"
    using check_degenerate [of token http_get] by auto
  then have pre: "lower token \<noteq> ''0x0000000000000000000000000000000000000000''"
    "startswith token ''0x''" "length token = 42" by (auto simp: degenerate_def)
  obtain status body where rep: "http_get (dexscreener_url token) = Reply status body"
    using assms pre
    by (cases "http_get (dexscreener_url token)")
      (auto simp: check_liquidity_dexscreener_def dexscreener_try_def)
  from assms pre rep have st: "status = 200"
    by (auto simp: check_liquidity_dexscreener_def dexscreener_try_def split: if_splits)
  from assms pre rep st obtain p ps where body: "body = Body (Some (p # ps))"
    by (cases body; simp add: check_liquidity_dexscreener_def dexscreener_try_def split: option.splits list.splits)
  from assms pre rep st body obtain k where k: "float_of (usd p) = Inr k"
    by (cases "float_of (usd p)")
      (auto simp: check_liquidity_dexscreener_def dexscreener_try_def)
  from assms pre rep st body k obtain best where b: "max_pair p k ps = Inr best"
    by (cases "max_pair p k ps")
      (auto simp: check_liquidity_dexscreener_def dexscreener_try_def)
  from assms pre rep st body k b obtain l where l: "float_of (usd best) = Inr l"
    by (cases "float_of (usd best)")
      (auto simp: check_liquidity_dexscreener_def dexscreener_try_def)
  from assms pre rep st body k b l obtain pr where pr: "float_of (priceUsd best) = Inr pr"
    by (cases "float_of (priceUsd best)")
      (auto simp: check_liquidity_dexscreener_def dexscreener_try_def)
  from pr have pr': "(case priceUsd best of Num r \<Rightarrow> r | _ \<Rightarrow> 0) = pr"
    by (auto simp: float_of_def split: jnum.splits)
  note mb = max_pair_best [OF b float_of_usd_of [OF k]]
  have "best \<in> set (p # ps)" "\<forall>q \<in> set (p # ps). usd_of q \<le> usd_of best"
    "\<forall>q \<in> set (p # ps). usd q \<noteq> Malformed" "priceUsd best \<noteq> Malformed"
    using mb float_of_usd_of [OF k] k pr by (auto simp: float_of_def)
  moreover have "fst (check_liquidity_dexscreener http_get token) =
       \<lparr> has_liquidity = (0 < usd_of best), liquidity_usd = usd_of best,
         info = Some \<lparr> best_pair = pairAddress best, dex = dexId best,
                       price_usd = (case priceUsd best of Num r \<Rightarrow> r | _ \<Rightarrow> 0) \<rparr> \<rparr>"
    unfolding pr' using pre rep st body k b l pr float_of_usd_of [OF l]
    by (simp add: check_liquidity_dexscreener_def dexscreener_try_def)
  ultimately show ?thesis using rep st body by blast
qed

lemma max_pair_total:
  "\<forall>p \<in> set ps. usd p \<noteq> Malformed \<Longrightarrow> \<exists>best. max_pair b k ps = Inr best"
proof (induction ps arbitrary: b k)
  case Nil
  show ?case by simp
next
  case (Cons p ps)
  then obtain k1 where "float_of (usd p) = Inr k1"
    by (cases "usd p") (auto simp: float_of_def)
  with Cons show ?case by simp
qed

lemma float_of_total: "j \<noteq> Malformed \<Longrightarrow> \<exists>r. float_of j = Inr r"
  by (cases j) (auto simp: float_of_def)

lemma check_ok:
  assumes "\<not> degenerate token"
    and "http_get (dexscreener_url token) = Reply 200 (Body (Some pairs))"
    and "pairs \<noteq> []"
    and "\<forall>p \<in> set pairs. usd p \<noteq> Malformed \<and> priceUsd p \<noteq> Malformed"
  shows "fst (check_liquidity_dexscreener http_get token) \<noteq> zero_snapshot"
proof -
  from assms(3) obtain p ps where ps: "pairs = p # ps" by (cases pairs) auto
  from assms(4) ps obtain k where k: "float_of (usd p) = Inr k"
    using float_of_total [of "usd p"] by auto
  from assms(4) ps obtain best where b: "max_pair p k ps = Inr best"
    using max_pair_total [of ps p k] by auto
  from max_pair_best [OF b float_of_usd_of [OF k]] ps have bin: "best \<in> set pairs" by simp
  with assms(4) obtain l pr where l: "float_of (usd best) = Inr l"
    and pr: "float_of (priceUsd best) = Inr pr"
    using float_of_total [of "usd best"] float_of_total [of "priceUsd best"] by blast
  from assms(1) have pre: "lower token \<noteq> ''0x0000000000000000000000000000000000000000''"
    "startswith token ''0x''" "length token = 42" by (auto simp: degenerate_def)
  have "info (fst (check_liquidity_dexscreener http_get token)) \<noteq> None"
    using pre assms(2) ps k b l pr
    by (simp add: check_liquidity_dexscreener_def dexscreener_try_def)
  then show ?thesis by (auto simp: zero_snapshot_def)
qed

lemma check_failure:
  assumes "\<not> degenerate token"
    and "http_get (dexscreener_url token) = RequestFailed \<or>
         (\<exists>status body. http_get (dexscreener_url token) = Reply status body \<and>
            (status \<noteq> 200 \<or> body = NotJson \<or> body = Body None \<or> body = Body (Some [])))"
  shows "check_liquidity_dexscreener http_get token = (zero_snapshot, [dexscreener_url token])"
proof -
  from assms(1) have pre: "lower token \<noteq> ''0x0000000000000000000000000000000000000000''"
    "startswith token ''0x''" "length token = 42" by (auto simp: degenerate_def)
  from assms(2) pre show ?thesis
    by (auto simp: check_liquidity_dexscreener_def dexscreener_try_def)
qed

lemma check_malformed:
  assumes "\<not> degenerate token"
    and "http_get (dexscreener_url token) = Reply 200 (Body (Some pairs))"
    and "\<exists>p \<in> set pairs. usd p = Malformed"
  shows "fst (check_liquidity_dexscreener http_get token) = zero_snapshot"
proof (rule ccontr)
  assume "fst (check_liquidity_dexscreener http_get token) \<noteq> zero_snapshot"
  from check_success [OF this] assms(2) have "\<forall>p \<in> set pairs. usd p \<noteq> Malformed"
    by auto
  with assms(3) show False by blast
qed



text \<open>
  Claim C9. For a degenerate token address (the zero address in any letter case, a string
  that does not start with \<^verbatim>\<open>0x\<close>, or one that is not 42 characters long) the check
  returns the zero snapshot and requests nothing, whatever the network would answer. For
  every other address exactly one request is made. When the reply has status 200 and a
  non-empty list of pairs whose fields can be read, the snapshot is that of a pair of the
  list whose USD liquidity is maximal. When the request raises (connection error, timeout),
  the status is not 200, the body cannot be read, the list of pairs is null or empty, or a
  pair's liquidity cannot be read, the result is the zero snapshot. The check returns a
  snapshot on every input, and that snapshot is the zero snapshot unless it carries the
  maximal liquidity of the pairs of a reply with status 200.
\<close>

theorem liquidity_check_never_faults:
  "(degenerate token \<longrightarrow> check_liquidity_dexscreener http_get token = (zero_snapshot, [])) \<and>
   (\<not> degenerate token \<and>
    http_get (dexscreener_url token) = Reply 200 (Body (Some pairs)) \<and> pairs \<noteq> [] \<and>
    (\<forall>p \<in> set pairs. usd p \<noteq> Malformed \<and> priceUsd p \<noteq> Malformed) \<longrightarrow>
      (\<exists>best \<in> set pairs.
         (\<forall>p \<in> set pairs. usd_of p \<le> usd_of best) \<and>
         check_liquidity_dexscreener http_get token =
           (\<lparr> has_liquidity = (0 < usd_of best), liquidity_usd = usd_of best,
              info = Some \<lparr> best_pair = pairAddress best, dex = dexId best,
                            price_usd = (case priceUsd best of Num r \<Rightarrow> r | _ \<Rightarrow> 0) \<rparr> \<rparr>,
            [dexscreener_url token]))) \<and>
   (\<not> degenerate token \<and>
    (http_get (dexscreener_url token) = RequestFailed \<or>
     (\<exists>status body. http_get (dexscreener_url token) = Reply status body \<and>
        (status \<noteq> 200 \<or> body = NotJson \<or> body = Body None \<or> body = Body (Some []) \<or>
         (\<exists>ps. body = Body (Some ps) \<and> (\<exists>p \<in> set ps. usd p = Malformed))))) \<longrightarrow>
      check_liquidity_dexscreener http_get token = (zero_snapshot, [dexscreener_url token])) \<and>
   (fst (check_liquidity_dexscreener http_get token) = zero_snapshot \<or>
    (\<exists>ps best. http_get (dexscreener_url token) = Reply 200 (Body (Some ps)) \<and>
       best \<in> set ps \<and> (\<forall>p \<in> set ps. usd_of p \<le> usd_of best) \<and>
       liquidity_usd (fst (check_liquidity_dexscreener http_get token)) = usd_of best))"
proof (intro conjI impI)
  assume "degenerate token"
  then show "check_liquidity_dexscreener http_get token = (zero_snapshot, [])"
    by (rule check_degenerate)
next
  assume a: "\<not> degenerate token \<and>
    http_get (dexscreener_url token) = Reply 200 (Body (Some pairs)) \<and> pairs \<noteq> [] \<and>
    (\<forall>p \<in> set pairs. usd p \<noteq> Malformed \<and> priceUsd p \<noteq> Malformed)"
  then have "fst (check_liquidity_dexscreener http_get token) \<noteq> zero_snapshot"
    by (intro check_ok) blast+
  from check_success [OF this] a check_requests [of token http_get]
  show "\<exists>best \<in> set pairs.
         (\<forall>p \<in> set pairs. usd_of p \<le> usd_of best) \<and>
         check_liquidity_dexscreener http_get token =
           (\<lparr> has_liquidity = (0 < usd_of best), liquidity_usd = usd_of best,
              info = Some \<lparr> best_pair = pairAddress best, dex = dexId best,
                            price_usd = (case priceUsd best of Num r \<Rightarrow> r | _ \<Rightarrow> 0) \<rparr> \<rparr>,
            [dexscreener_url token])"
    by (auto simp: prod_eq_iff)
next
  assume a: "\<not> degenerate token \<and>
    (http_get (dexscreener_url token) = RequestFailed \<or>
     (\<exists>status body. http_get (dexscreener_url token) = Reply status body \<and>
        (status \<noteq> 200 \<or> body = NotJson \<or> body = Body None \<or> body = Body (Some []) \<or>
         (\<exists>ps. body = Body (Some ps) \<and> (\<exists>p \<in> set ps. usd p = Malformed)))))"
  then have nd: "\<not> degenerate token" by simp
  show "check_liquidity_dexscreener http_get token = (zero_snapshot, [dexscreener_url token])"
  proof (cases "\<exists>ps. http_get (dexscreener_url token) = Reply 200 (Body (Some ps)) \<and>
      (\<exists>p \<in> set ps. usd p = Malformed)")
    case True
    then obtain ps where "http_get (dexscreener_url token) = Reply 200 (Body (Some ps))"
      "\<exists>p \<in> set ps. usd p = Malformed" by blast
    from check_malformed [of token http_get ps, OF nd this] check_requests [OF nd, of http_get]
    show ?thesis by (simp add: prod_eq_iff)
  next
    case False
    with a have "http_get (dexscreener_url token) = RequestFailed \<or>
         (\<exists>status body. http_get (dexscreener_url token) = Reply status body \<and>
            (status \<noteq> 200 \<or> body = NotJson \<or> body = Body None \<or> body = Body (Some [])))"
      by auto
    with nd show ?thesis by (rule check_failure)
  qed
next
  show "fst (check_liquidity_dexscreener http_get token) = zero_snapshot \<or>
    (\<exists>ps best. http_get (dexscreener_url token) = Reply 200 (Body (Some ps)) \<and>
       best \<in> set ps \<and> (\<forall>p \<in> set ps. usd_of p \<le> usd_of best) \<and>
       liquidity_usd (fst (check_liquidity_dexscreener http_get token)) = usd_of best)"
  proof (cases "fst (check_liquidity_dexscreener http_get token) = zero_snapshot")
    case True
    then show ?thesis by simp
  next
    case False
    from check_success [OF False] obtain ps best where
      h: "http_get (dexscreener_url token) = Reply 200 (Body (Some ps))" "best \<in> set ps"
        "\<forall>p \<in> set ps. usd_of p \<le> usd_of best"
      and r: "fst (check_liquidity_dexscreener http_get token) =
       \<lparr> has_liquidity = (0 < usd_of best), liquidity_usd = usd_of best,
         info = Some \<lparr> best_pair = pairAddress best, dex = dexId best,
                       price_usd = (case priceUsd best of Num r \<Rightarrow> r | _ \<Rightarrow> 0) \<rparr> \<rparr>"
      by blast
    from r have "liquidity_usd (fst (check_liquidity_dexscreener http_get token)) = usd_of best"
      by simp
    with h show ?thesis by blast
  qed
qed

lemma example_not_degenerate: "\<not> degenerate example_token"
  by (simp add: degenerate_def example_token_def lower_def lower_char_def startswith_def)

lemma example_usd_of: "map usd_of example_pairs = [1500, 3500, 0]"
  by (simp add: example_pairs_def usd_of_def)

theorem liquidity_check_never_faults_witness:
  "degenerate ''0xabc'' \<and>
   check_liquidity_dexscreener example_http ''0xabc'' = (zero_snapshot, []) \<and>
   \<not> degenerate example_token \<and>
   example_http (dexscreener_url example_token) = Reply 200 (Body (Some example_pairs)) \<and>
   example_pairs \<noteq> [] \<and>
   liquidity_usd (fst (check_liquidity_dexscreener example_http example_token)) = 3500 \<and>
   best_pair (the (info (fst (check_liquidity_dexscreener example_http example_token)))) =
     Some ''0xp2'' \<and>
   check_liquidity_dexscreener (\<lambda>url. Reply 404 NotJson) example_token =
     (zero_snapshot, [dexscreener_url example_token])"
proof -
  have d: "degenerate ''0xabc''"
    by (simp add: degenerate_def)
  have ok: "\<forall>p \<in> set example_pairs. usd p \<noteq> Malformed \<and> priceUsd p \<noteq> Malformed"
    by (simp add: example_pairs_def)
  have ne: "example_pairs \<noteq> []" by (simp add: example_pairs_def)
  have h: "example_http (dexscreener_url example_token) = Reply 200 (Body (Some example_pairs))"
    by (simp add: example_http_def)
  note t = liquidity_check_never_faults [where token = example_token and http_get = example_http
      and pairs = example_pairs]
  from t example_not_degenerate h ne ok obtain best where
    b: "best \<in> set example_pairs" "\<forall>p \<in> set example_pairs. usd_of p \<le> usd_of best"
    and r: "check_liquidity_dexscreener example_http example_token =
           (\<lparr> has_liquidity = (0 < usd_of best), liquidity_usd = usd_of best,
              info = Some \<lparr> best_pair = pairAddress best, dex = dexId best,
                            price_usd = (case priceUsd best of Num r \<Rightarrow> r | _ \<Rightarrow> 0) \<rparr> \<rparr>,
            [dexscreener_url example_token])"
    by blast
  from b have best: "best = example_pairs ! 1"
    by (auto simp: example_pairs_def usd_of_def)
  have f: "check_liquidity_dexscreener (\<lambda>url. Reply 404 NotJson) example_token =
     (zero_snapshot, [dexscreener_url example_token])"
    using liquidity_check_never_faults [where token = example_token
        and http_get = "\<lambda>url. Reply 404 NotJson"] example_not_degenerate
    by simp
  from liquidity_check_never_faults [where token = "''0xabc''" and http_get = example_http] d
  have z: "check_liquidity_dexscreener example_http ''0xabc'' = (zero_snapshot, [])" by blast
  show ?thesis
    using d z example_not_degenerate h ne f
    by (simp add: r best) (simp add: example_pairs_def usd_of_def)
qed





section \<open>Properties of the swap orchestrator\<close>

lemma execute_swap_no_quote:
  "quote_reply env ZeroEx = None \<Longrightarrow>
     execute_swap env token_in token_out amount_in = (None, [QuoteRequest ZeroEx])"
  by (simp add: execute_swap_def get_0x_quote_def)

lemma execute_swap_no_swap_data:
  "quote_reply env ZeroEx = Some q \<Longrightarrow> swap_reply env ZeroEx = None \<Longrightarrow>
     execute_swap env token_in token_out amount_in =
       (None, [QuoteRequest ZeroEx, SwapTxRequest ZeroEx])"
  by (simp add: execute_swap_def get_0x_quote_def get_0x_swap_tx_def)

lemma execute_swap_shape:
  assumes "quote_reply env ZeroEx = Some q" and "swap_reply env ZeroEx = Some sd"
  shows "execute_swap env token_in token_out amount_in =
      (fst (from_signing env sd),
       before_signing env sd token_in amount_in @ snd (from_signing env sd))"
  using assms
  by (cases "build_tx env sd"; cases "sign_reply env"; cases "send_reply env";
      cases "receipt_reply env")
    (simp_all add: execute_swap_def get_0x_quote_def get_0x_swap_tx_def before_signing_def
      from_signing_def check_allowance_def Let_def)

lemma asked_before_signing:
  "e \<in> set (before_signing env sd token_in amount_in) \<Longrightarrow> asked e = Some p \<Longrightarrow> p = ZeroEx"
  by (auto simp: before_signing_def approve_token_def
      split: if_splits option.splits approve_outcome.splits)

lemma asked_from_signing:
  "e \<in> set (snd (from_signing env sd)) \<Longrightarrow> asked e = None"
  by (auto simp: from_signing_def split: if_splits option.splits)

lemma unsigned_before_signing:
  "SwapSigned \<notin> set (before_signing env sd token_in amount_in)"
  by (auto simp: before_signing_def approve_token_def
      split: if_splits option.splits approve_outcome.splits)

lemma no_approval_from_signing:
  "e \<in> set (snd (from_signing env sd)) \<Longrightarrow> \<not> is_approval e"
  by (auto simp: from_signing_def split: if_splits option.splits)

lemma execute_swap_asked:
  assumes "e \<in> set (snd (execute_swap env token_in token_out amount_in))"
    and "asked e = Some p"
  shows "p = ZeroEx"
proof (cases "quote_reply env ZeroEx")
  case None
  from assms show ?thesis by (auto simp: execute_swap_no_quote [OF None])
next
  case (Some q)
  show ?thesis
  proof (cases "swap_reply env ZeroEx")
    case None
    from assms show ?thesis by (auto simp: execute_swap_no_swap_data [OF Some None])
  next
    case (Some sd)
    from assms(1) have "e \<in> set (before_signing env sd token_in amount_in) \<or>
        e \<in> set (snd (from_signing env sd))"
      by (simp add: execute_swap_shape [OF \<open>quote_reply env ZeroEx = Some q\<close> Some])
    then show ?thesis
    proof
      assume "e \<in> set (before_signing env sd token_in amount_in)"
      then show ?thesis using assms(2) by (rule asked_before_signing)
    next
      assume "e \<in> set (snd (from_signing env sd))"
      then have "asked e = None" by (rule asked_from_signing)
      with assms(2) show ?thesis by simp
    qed
  qed
qed

lemma execute_swap_other_providers:
  assumes "p \<noteq> ZeroEx"
  shows "execute_swap (env\<lparr> quote_reply := (quote_reply env)(p := q),
                           swap_reply := (swap_reply env)(p := sd) \<rparr>)
           token_in token_out amount_in =
         execute_swap env token_in token_out amount_in"
proof -
  let ?env = "env\<lparr> quote_reply := (quote_reply env)(p := q),
                     swap_reply := (swap_reply env)(p := sd) \<rparr>"
  from assms have same: "quote_reply ?env ZeroEx = quote_reply env ZeroEx"
    "swap_reply ?env ZeroEx = swap_reply env ZeroEx" by simp_all
  have b: "before_signing ?env d token_in amount_in = before_signing env d token_in amount_in"
    for d
    by (simp add: before_signing_def check_allowance_def approve_token_def
        split: option.splits approve_outcome.splits)
  have f: "from_signing ?env d = from_signing env d" for d
    by (simp add: from_signing_def build_tx_def split: option.splits)
  show ?thesis
  proof (cases "quote_reply env ZeroEx")
    case None
    with same show ?thesis by (simp add: execute_swap_no_quote)
  next
    case (Some q0)
    show ?thesis
    proof (cases "swap_reply env ZeroEx")
      case None
      with Some same show ?thesis by (simp add: execute_swap_no_swap_data)
    next
      case (Some d)
      from \<open>quote_reply env ZeroEx = Some q0\<close> Some same
      have "quote_reply ?env ZeroEx = Some q0" "swap_reply ?env ZeroEx = Some d" by simp_all
      from execute_swap_shape [OF this]
        execute_swap_shape [OF \<open>quote_reply env ZeroEx = Some q0\<close> Some]
      show ?thesis by (simp only: b f)
    qed
  qed
qed

text \<open>
  Claim C3, as amended. \<^verbatim>\<open>execute_swap\<close> asks one provider only, 0x: every quote
  or swap-data request of an execution goes to 0x. When 0x has no quote the attempt fails
  after that single request; when it has a quote but no swap data the attempt fails after
  the two requests; otherwise the execution goes on with the swap data of 0x. What the other
  aggregators would answer has no effect on the execution.

  The claim as stated fails (the counterexample below): where 0x has neither quote
  nor swap data while 1inch and Uniswap, its neighbours in \<^verbatim>\<open>AGGREGATOR_PRIORITY\<close>, have a
  quote, the attempt fails after the request to 0x and no other provider is asked.
\<close>

theorem only_0x_is_asked:
  "(\<forall>e \<in> set (snd (execute_swap env token_in token_out amount_in)).
      \<forall>p. asked e = Some p \<longrightarrow> p = ZeroEx) \<and>
   (quote_reply env ZeroEx = None \<longrightarrow>
      execute_swap env token_in token_out amount_in = (None, [QuoteRequest ZeroEx])) \<and>
   (quote_reply env ZeroEx \<noteq> None \<and> swap_reply env ZeroEx = None \<longrightarrow>
      execute_swap env token_in token_out amount_in =
        (None, [QuoteRequest ZeroEx, SwapTxRequest ZeroEx])) \<and>
   (quote_reply env ZeroEx \<noteq> None \<and> swap_reply env ZeroEx \<noteq> None \<longrightarrow>
      take 2 (snd (execute_swap env token_in token_out amount_in)) =
        [QuoteRequest ZeroEx, SwapTxRequest ZeroEx]) \<and>
   (p \<noteq> ZeroEx \<longrightarrow>
      execute_swap (env\<lparr> quote_reply := (quote_reply env)(p := q),
                         swap_reply := (swap_reply env)(p := sd) \<rparr>)
        token_in token_out amount_in =
      execute_swap env token_in token_out amount_in)"
proof (intro conjI impI ballI allI)
  fix e p'
  assume "e \<in> set (snd (execute_swap env token_in token_out amount_in))" "asked e = Some p'"
  then show "p' = ZeroEx" by (rule execute_swap_asked)
next
  assume "quote_reply env ZeroEx = None"
  then show "execute_swap env token_in token_out amount_in = (None, [QuoteRequest ZeroEx])"
    by (rule execute_swap_no_quote)
next
  assume "quote_reply env ZeroEx \<noteq> None \<and> swap_reply env ZeroEx = None"
  then show "execute_swap env token_in token_out amount_in =
        (None, [QuoteRequest ZeroEx, SwapTxRequest ZeroEx])"
    using execute_swap_no_swap_data by blast
next
  assume "quote_reply env ZeroEx \<noteq> None \<and> swap_reply env ZeroEx \<noteq> None"
  then obtain q' sd' where "quote_reply env ZeroEx = Some q'" "swap_reply env ZeroEx = Some sd'"
    by blast
  from execute_swap_shape [OF this]
  show "take 2 (snd (execute_swap env token_in token_out amount_in)) =
        [QuoteRequest ZeroEx, SwapTxRequest ZeroEx]"
    by (simp add: before_signing_def)
next
  assume "p \<noteq> ZeroEx"
  then show "execute_swap (env\<lparr> quote_reply := (quote_reply env)(p := q),
                         swap_reply := (swap_reply env)(p := sd) \<rparr>)
        token_in token_out amount_in =
      execute_swap env token_in token_out amount_in"
    by (rule execute_swap_other_providers)
qed

theorem no_fallback_after_0x:
  "AGGREGATOR_PRIORITY = [OneInch, ZeroEx, Uniswap, OKX] \<and>
   quote_reply no_0x_quote ZeroEx = None \<and> swap_reply no_0x_quote ZeroEx = None \<and>
   quote_reply no_0x_quote OneInch = Some \<lparr> buyAmount = Some ''500'' \<rparr> \<and>
   quote_reply no_0x_quote Uniswap = Some \<lparr> buyAmount = Some ''500'' \<rparr> \<and>
   execute_swap no_0x_quote ''0xtoken'' ''0xweth'' 1000 = (None, [QuoteRequest ZeroEx])"
proof -
  have q: "quote_reply no_0x_quote ZeroEx = None"
    by (simp add: no_0x_quote_def)
  from execute_swap_no_quote [OF q] q show ?thesis
    by (simp add: AGGREGATOR_PRIORITY_def no_0x_quote_def)
qed

theorem only_0x_is_asked_witness:
  "quote_reply no_0x_quote ZeroEx = None \<and>
   execute_swap no_0x_quote ''0xtoken'' ''0xweth'' 1000 = (None, [QuoteRequest ZeroEx]) \<and>
   quote_reply all_succeed ZeroEx \<noteq> None \<and> swap_reply all_succeed ZeroEx \<noteq> None \<and>
   take 2 (snd (execute_swap all_succeed ''0xtoken'' ''0xweth'' 1000)) =
     [QuoteRequest ZeroEx, SwapTxRequest ZeroEx]"
proof -
  have q: "quote_reply no_0x_quote ZeroEx = None"
    by (simp add: no_0x_quote_def)
  have a: "quote_reply all_succeed ZeroEx \<noteq> None" "swap_reply all_succeed ZeroEx \<noteq> None"
    by (simp_all add: all_succeed_def)
  from q only_0x_is_asked [where env = no_0x_quote and token_in = "''0xtoken''"
      and token_out = "''0xweth''" and amount_in = 1000]
  have 1: "execute_swap no_0x_quote ''0xtoken'' ''0xweth'' 1000 = (None, [QuoteRequest ZeroEx])"
    by blast
  from a only_0x_is_asked [where env = all_succeed and token_in = "''0xtoken''"
      and token_out = "''0xweth''" and amount_in = 1000]
  have 2: "take 2 (snd (execute_swap all_succeed ''0xtoken'' ''0xweth'' 1000)) =
     [QuoteRequest ZeroEx, SwapTxRequest ZeroEx]"
    by blast
  from q a 1 2 show ?thesis by blast
qed

text \<open>
  Claim C4, as amended. In every execution that has obtained its quote and swap data, the
  third call reads the allowance of the token towards the \<^verbatim>\<open>allowanceTarget\<close> of the swap
  data; the value read is the allowance the contract holds, and 0 when the read raises or
  the swap data names no spender. When the value read is below the amount, the next call
  is \<^verbatim>\<open>approve_token\<close> for that spender with twice the amount, and an approval whose
  transaction is sent and confirmed is so before anything else is done. No call of the
  approval ever comes after the swap is signed. When the value read is at least the amount
  no approval call is made at all, and the call after the allowance read is the signing of
  the swap (when the transaction can be built and signed). What the execution does after
  an approval that fails is not stated here.

  The claim as stated fails (the counterexample below): where the contract holds an
  allowance of 5000 for an amount of 1000 but the read raises, an approval for 2000 is
  called; and where the allowance is 0 and the approval cannot be sent, no approval
  transaction is submitted and the swap is signed all the same.
\<close>

theorem allowance_decides_approval:
  assumes "quote_reply env ZeroEx = Some q" and "swap_reply env ZeroEx = Some sd"
  shows
    "take 3 (snd (execute_swap env token_in token_out amount_in)) =
       [QuoteRequest ZeroEx, SwapTxRequest ZeroEx, AllowanceRead token_in (allowanceTarget sd)] \<and>
     fst (check_allowance env token_in (allowanceTarget sd)) =
       (if allowanceTarget sd = None \<or> allowance_call_raises env then 0
        else allowance_on_chain env) \<and>
     (\<forall>e \<in> set (dropWhile (\<lambda>e. e \<noteq> SwapSigned)
          (snd (execute_swap env token_in token_out amount_in))). \<not> is_approval e) \<and>
     (fst (check_allowance env token_in (allowanceTarget sd)) < amount_in \<longrightarrow>
        take 4 (snd (execute_swap env token_in token_out amount_in)) =
          [QuoteRequest ZeroEx, SwapTxRequest ZeroEx,
           AllowanceRead token_in (allowanceTarget sd),
           ApproveCall token_in (allowanceTarget sd) (2 * amount_in)] \<and>
        (allowanceTarget sd \<noteq> None \<and> approve_reply env = ApproveMined h \<longrightarrow>
           take 6 (snd (execute_swap env token_in token_out amount_in)) =
             [QuoteRequest ZeroEx, SwapTxRequest ZeroEx,
              AllowanceRead token_in (allowanceTarget sd),
              ApproveCall token_in (allowanceTarget sd) (2 * amount_in),
              ApproveSent h, ApproveConfirmed h])) \<and>
     (amount_in \<le> fst (check_allowance env token_in (allowanceTarget sd)) \<longrightarrow>
        (\<forall>e \<in> set (snd (execute_swap env token_in token_out amount_in)). \<not> is_approval e) \<and>
        (build_tx env sd \<noteq> None \<and> sign_reply env \<longrightarrow>
           take 4 (snd (execute_swap env token_in token_out amount_in)) =
             [QuoteRequest ZeroEx, SwapTxRequest ZeroEx,
              AllowanceRead token_in (allowanceTarget sd), SwapSigned]))"
proof -
  note shape = execute_swap_shape [OF assms, of token_in token_out amount_in]
  let ?b = "before_signing env sd token_in amount_in"
  let ?f = "snd (from_signing env sd)"
  have tr: "snd (execute_swap env token_in token_out amount_in) = ?b @ ?f"
    by (simp add: shape)
  have 1: "take 3 (?b @ ?f) =
       [QuoteRequest ZeroEx, SwapTxRequest ZeroEx, AllowanceRead token_in (allowanceTarget sd)]"
    by (simp add: before_signing_def)
  have dw: "dropWhile (\<lambda>e. e \<noteq> SwapSigned) (?b @ ?f) = dropWhile (\<lambda>e. e \<noteq> SwapSigned) ?f"
    using unsigned_before_signing [of env sd token_in amount_in]
    by (simp add: dropWhile_append)
  have 2: "\<forall>e \<in> set (dropWhile (\<lambda>e. e \<noteq> SwapSigned) (?b @ ?f)). \<not> is_approval e"
    unfolding dw using no_approval_from_signing [of _ env sd] set_dropWhileD by fast
  have 3: "take 4 (?b @ ?f) =
          [QuoteRequest ZeroEx, SwapTxRequest ZeroEx,
           AllowanceRead token_in (allowanceTarget sd),
           ApproveCall token_in (allowanceTarget sd) (2 * amount_in)]"
    if "fst (check_allowance env token_in (allowanceTarget sd)) < amount_in"
    using that
    by (simp add: before_signing_def approve_token_def mult.commute
        split: option.splits approve_outcome.splits)
  have 4: "take 6 (?b @ ?f) =
             [QuoteRequest ZeroEx, SwapTxRequest ZeroEx,
              AllowanceRead token_in (allowanceTarget sd),
              ApproveCall token_in (allowanceTarget sd) (2 * amount_in),
              ApproveSent h, ApproveConfirmed h]"
    if "fst (check_allowance env token_in (allowanceTarget sd)) < amount_in"
      "allowanceTarget sd \<noteq> None \<and> approve_reply env = ApproveMined h"
    using that
    by (auto simp: before_signing_def approve_token_def mult.commute)
  have 5: "\<forall>e \<in> set (?b @ ?f). \<not> is_approval e"
    if "amount_in \<le> fst (check_allowance env token_in (allowanceTarget sd))"
    using that no_approval_from_signing [of _ env sd]
    by (auto simp: before_signing_def)
  have 6: "take 4 (?b @ ?f) =
             [QuoteRequest ZeroEx, SwapTxRequest ZeroEx,
              AllowanceRead token_in (allowanceTarget sd), SwapSigned]"
    if "amount_in \<le> fst (check_allowance env token_in (allowanceTarget sd))"
      "build_tx env sd \<noteq> None \<and> sign_reply env"
    using that
    by (auto simp: before_signing_def from_signing_def split: option.splits)
  have 0: "fst (check_allowance env token_in (allowanceTarget sd)) =
       (if allowanceTarget sd = None \<or> allowance_call_raises env then 0
        else allowance_on_chain env)"
    by (simp add: check_allowance_def split: option.splits)
  from 0 1 2 3 4 5 6 show ?thesis unfolding tr by blast
qed

lemma all_succeed_replies:
  "quote_reply all_succeed ZeroEx = Some \<lparr> buyAmount = Some ''500'' \<rparr>"
  "swap_reply all_succeed ZeroEx =
     Some \<lparr> allowanceTarget = Some ''0xspender'', tx_to = Some ''0xrouter'' \<rparr>"
  by (simp_all add: all_succeed_def)

lemma enough_allowance_replies:
  "quote_reply enough_allowance ZeroEx = Some \<lparr> buyAmount = Some ''500'' \<rparr>"
  "swap_reply enough_allowance ZeroEx =
     Some \<lparr> allowanceTarget = Some ''0xspender'', tx_to = Some ''0xrouter'' \<rparr>"
  by (simp_all add: enough_allowance_def all_succeed_def)

lemma allowance_unreadable_replies:
  "quote_reply allowance_unreadable ZeroEx = Some \<lparr> buyAmount = Some ''500'' \<rparr>"
  "swap_reply allowance_unreadable ZeroEx =
     Some \<lparr> allowanceTarget = Some ''0xspender'', tx_to = Some ''0xrouter'' \<rparr>"
  by (simp_all add: allowance_unreadable_def enough_allowance_def all_succeed_def)

lemma approval_fails_replies:
  "quote_reply approval_fails ZeroEx = Some \<lparr> buyAmount = Some ''500'' \<rparr>"
  "swap_reply approval_fails ZeroEx =
     Some \<lparr> allowanceTarget = Some ''0xspender'', tx_to = Some ''0xrouter'' \<rparr>"
  by (simp_all add: approval_fails_def all_succeed_def)

theorem approval_does_not_follow_the_allowance:
  "1000 \<le> allowance_on_chain allowance_unreadable \<and>
   take 4 (snd (execute_swap allowance_unreadable ''0xtoken'' ''0xweth'' 1000)) =
     [QuoteRequest ZeroEx, SwapTxRequest ZeroEx, AllowanceRead ''0xtoken'' (Some ''0xspender''),
      ApproveCall ''0xtoken'' (Some ''0xspender'') 2000] \<and>
   allowance_on_chain approval_fails < 1000 \<and>
   snd (execute_swap approval_fails ''0xtoken'' ''0xweth'' 1000) =
     [QuoteRequest ZeroEx, SwapTxRequest ZeroEx, AllowanceRead ''0xtoken'' (Some ''0xspender''),
      ApproveCall ''0xtoken'' (Some ''0xspender'') 2000,
      SwapSigned, SwapSent ''0xswap'', ReceiptRead 1]"
proof -
  have 1: "1000 \<le> allowance_on_chain allowance_unreadable"
    "allowance_on_chain approval_fails < 1000"
    by (simp_all add: allowance_unreadable_def enough_allowance_def
        approval_fails_def all_succeed_def)
  have 2: "take 4 (snd (execute_swap allowance_unreadable ''0xtoken'' ''0xweth'' 1000)) =
     [QuoteRequest ZeroEx, SwapTxRequest ZeroEx, AllowanceRead ''0xtoken'' (Some ''0xspender''),
      ApproveCall ''0xtoken'' (Some ''0xspender'') 2000]"
    unfolding execute_swap_shape [OF allowance_unreadable_replies]
    by (simp add: before_signing_def check_allowance_def approve_token_def
        allowance_unreadable_def enough_allowance_def all_succeed_def)
  have 3: "snd (execute_swap approval_fails ''0xtoken'' ''0xweth'' 1000) =
     [QuoteRequest ZeroEx, SwapTxRequest ZeroEx, AllowanceRead ''0xtoken'' (Some ''0xspender''),
      ApproveCall ''0xtoken'' (Some ''0xspender'') 2000,
      SwapSigned, SwapSent ''0xswap'', ReceiptRead 1]"
    unfolding execute_swap_shape [OF approval_fails_replies]
    by (simp add: before_signing_def from_signing_def check_allowance_def approve_token_def
        build_tx_def approval_fails_def all_succeed_def)
  from 1 2 3 show ?thesis by blast
qed

theorem allowance_decides_approval_witness:
  "fst (check_allowance all_succeed ''0xtoken'' (Some ''0xspender'')) < 1000 \<and>
   take 6 (snd (execute_swap all_succeed ''0xtoken'' ''0xweth'' 1000)) =
     [QuoteRequest ZeroEx, SwapTxRequest ZeroEx, AllowanceRead ''0xtoken'' (Some ''0xspender''),
      ApproveCall ''0xtoken'' (Some ''0xspender'') 2000,
      ApproveSent ''0xapprove'', ApproveConfirmed ''0xapprove''] \<and>
   fst (check_allowance enough_allowance ''0xtoken'' (Some ''0xspender'')) = 5000 \<and>
   take 4 (snd (execute_swap enough_allowance ''0xtoken'' ''0xweth'' 1000)) =
     [QuoteRequest ZeroEx, SwapTxRequest ZeroEx, AllowanceRead ''0xtoken'' (Some ''0xspender''),
      SwapSigned]"
proof -
  let ?sd = "\<lparr> allowanceTarget = Some ''0xspender'', tx_to = Some ''0xrouter'' \<rparr>"
  have low: "fst (check_allowance all_succeed ''0xtoken'' (allowanceTarget ?sd)) < 1000"
    by (simp add: check_allowance_def all_succeed_def)
  have mined: "allowanceTarget ?sd \<noteq> None \<and> approve_reply all_succeed = ApproveMined ''0xapprove''"
    by (simp add: all_succeed_def)
  have chain: "\<not> (allowanceTarget ?sd = None \<or> allowance_call_raises enough_allowance)"
    "allowance_on_chain enough_allowance = 5000"
    by (simp_all add: enough_allowance_def all_succeed_def)
  have built: "build_tx enough_allowance ?sd \<noteq> None \<and> sign_reply enough_allowance"
    by (simp add: build_tx_def enough_allowance_def all_succeed_def)
  note rich = allowance_decides_approval [OF enough_allowance_replies,
      where token_in = "''0xtoken''" and amount_in = 1000 and h = "''0xapprove''"
      and token_out = "''0xweth''"]
  from low mined
    allowance_decides_approval [OF all_succeed_replies, where token_in = "''0xtoken''"
      and amount_in = 1000 and h = "''0xapprove''" and token_out = "''0xweth''"]
  have 1: "take 6 (snd (execute_swap all_succeed ''0xtoken'' ''0xweth'' 1000)) =
     [QuoteRequest ZeroEx, SwapTxRequest ZeroEx, AllowanceRead ''0xtoken'' (allowanceTarget ?sd),
      ApproveCall ''0xtoken'' (allowanceTarget ?sd) (2 * 1000),
      ApproveSent ''0xapprove'', ApproveConfirmed ''0xapprove'']"
    by blast
  from rich chain
  have high: "fst (check_allowance enough_allowance ''0xtoken'' (allowanceTarget ?sd)) = 5000"
    by (simp only: if_False)
  then have "1000 \<le> fst (check_allowance enough_allowance ''0xtoken'' (allowanceTarget ?sd))"
    by simp
  from this built rich
  have 2: "take 4 (snd (execute_swap enough_allowance ''0xtoken'' ''0xweth'' 1000)) =
     [QuoteRequest ZeroEx, SwapTxRequest ZeroEx, AllowanceRead ''0xtoken'' (allowanceTarget ?sd),
      SwapSigned]"
    by blast
  from low high 1 2 show ?thesis by simp
qed

lemma approval_unconfirmed_replies:
  "quote_reply (all_succeed\<lparr> approve_reply := ApproveUnconfirmed ''0xapprove'' \<rparr>) ZeroEx =
     Some \<lparr> buyAmount = Some ''500'' \<rparr>"
  "swap_reply (all_succeed\<lparr> approve_reply := ApproveUnconfirmed ''0xapprove'' \<rparr>) ZeroEx =
     Some \<lparr> allowanceTarget = Some ''0xspender'', tx_to = Some ''0xrouter'' \<rparr>"
  by (simp_all add: all_succeed_def)

text \<open>
  Claim C5, which the code breaks. The claim says that an execution whose approval fails
  terminates as failed and signs and submits no swap. \<^verbatim>\<open>execute_swap\<close> does not read the
  result of \<^verbatim>\<open>approve_token\<close>: with no allowance, amount 1000 and an approval that
  cannot be sent (\<^verbatim>\<open>approve_token\<close> returns \<open>None\<close>), the swap is signed, sent and
  confirmed and its hash is returned; likewise when the approval is sent but its receipt
  never arrives.
\<close>

theorem swap_sent_after_failed_approval:
  "approve_token approval_fails ''0xtoken'' (Some ''0xspender'') 2000 =
     (None, [ApproveCall ''0xtoken'' (Some ''0xspender'') 2000]) \<and>
   execute_swap approval_fails ''0xtoken'' ''0xweth'' 1000 =
     (Some ''0xswap'',
      [QuoteRequest ZeroEx, SwapTxRequest ZeroEx, AllowanceRead ''0xtoken'' (Some ''0xspender''),
       ApproveCall ''0xtoken'' (Some ''0xspender'') 2000,
       SwapSigned, SwapSent ''0xswap'', ReceiptRead 1]) \<and>
   execute_swap (all_succeed\<lparr> approve_reply := ApproveUnconfirmed ''0xapprove'' \<rparr>)
       ''0xtoken'' ''0xweth'' 1000 =
     (Some ''0xswap'',
      [QuoteRequest ZeroEx, SwapTxRequest ZeroEx, AllowanceRead ''0xtoken'' (Some ''0xspender''),
       ApproveCall ''0xtoken'' (Some ''0xspender'') 2000, ApproveSent ''0xapprove'',
       SwapSigned, SwapSent ''0xswap'', ReceiptRead 1])"
proof -
  have 1: "approve_token approval_fails ''0xtoken'' (Some ''0xspender'') 2000 =
     (None, [ApproveCall ''0xtoken'' (Some ''0xspender'') 2000])"
    by (simp add: approve_token_def approval_fails_def all_succeed_def)
  have 2: "execute_swap approval_fails ''0xtoken'' ''0xweth'' 1000 =
     (Some ''0xswap'',
      [QuoteRequest ZeroEx, SwapTxRequest ZeroEx, AllowanceRead ''0xtoken'' (Some ''0xspender''),
       ApproveCall ''0xtoken'' (Some ''0xspender'') 2000,
       SwapSigned, SwapSent ''0xswap'', ReceiptRead 1])"
    unfolding execute_swap_shape [OF approval_fails_replies]
    by (simp add: before_signing_def from_signing_def check_allowance_def approve_token_def
        build_tx_def approval_fails_def all_succeed_def)
  have 3: "execute_swap (all_succeed\<lparr> approve_reply := ApproveUnconfirmed ''0xapprove'' \<rparr>)
       ''0xtoken'' ''0xweth'' 1000 =
     (Some ''0xswap'',
      [QuoteRequest ZeroEx, SwapTxRequest ZeroEx, AllowanceRead ''0xtoken'' (Some ''0xspender''),
       ApproveCall ''0xtoken'' (Some ''0xspender'') 2000, ApproveSent ''0xapprove'',
       SwapSigned, SwapSent ''0xswap'', ReceiptRead 1])"
    unfolding execute_swap_shape [OF approval_unconfirmed_replies]
    by (simp add: before_signing_def from_signing_def check_allowance_def approve_token_def
        build_tx_def all_succeed_def)
  from 1 2 3 show ?thesis by blast
qed

section \<open>Properties of the sniper variant\<close>













end
